theory Spec2Isabelle
  imports Complex_Main "HOL-Library.Multiset"
begin

section \<open>Python errors and results\<close>

text \<open>
  Every \<open>raise\<close> of the source, and every exception the NumPy calls of the source raise
  on the inputs covered here, is a value of \<open>error\<close>. A computation that may raise returns
  \<open>error + 'a\<close>, with \<open>Inl\<close> for the exception. The string of a \<open>ValueError\<close> is a short
  tag of the message of the raising site, so that two raise sites stay distinguishable.
\<close>

datatype error =
    ValueError string
  | NameError string
  | IndexError
  | AxisError
  | TypeError
  | PyWarning string
  | AssertionError
  | Unmodelled string

definition bind_e :: "error + 'a \<Rightarrow> ('a \<Rightarrow> error + 'b) \<Rightarrow> error + 'b" where
  "bind_e m f = (case m of Inl e \<Rightarrow> Inl e | Inr x \<Rightarrow> f x)"

definition is_ok :: "error + 'a \<Rightarrow> bool" where
  "is_ok m = (case m of Inl _ \<Rightarrow> False | Inr _ \<Rightarrow> True)"

text \<open>Python indexing of a tuple or list: a negative index counts from the end.\<close>

definition py_index :: "nat \<Rightarrow> int \<Rightarrow> nat option" where
  "py_index n i =
     (let j = (if i < 0 then int n + i else i)
      in if 0 \<le> j \<and> j < int n then Some (nat j) else None)"

definition py_get :: "'a list \<Rightarrow> int \<Rightarrow> error + 'a" where
  "py_get xs i = (case py_index (length xs) i of None \<Rightarrow> Inl IndexError | Some j \<Rightarrow> Inr (xs ! j))"

section \<open>NumPy arrays\<close>

text \<open>
  An \<open>ndarray\<close> is its shape and its elements in C (row-major) order, which is the order
  \<open>reshape\<close> and \<open>ravel\<close> read an array in, whatever its strides are. A well-formed array
  holds as many elements as its shape says. A dimension may be \<open>0\<close>.
\<close>

record 'a ndarray =
  shape :: "nat list"
  data :: "'a list"

definition wf_array :: "'a ndarray \<Rightarrow> bool" where
  "wf_array A = (length (data A) = prod_list (shape A))"

definition ndim :: "'a ndarray \<Rightarrow> nat" where
  "ndim A = length (shape A)"

text \<open>Flat position of a multi-index, and back (\<open>np.ravel_multi_index\<close>, \<open>np.unravel_index\<close>).\<close>

fun ravel_index :: "nat list \<Rightarrow> nat list \<Rightarrow> nat" where
  "ravel_index (d # ds) (i # is) = i * prod_list ds + ravel_index ds is"
| "ravel_index _ _ = 0"

fun unravel_index :: "nat list \<Rightarrow> nat \<Rightarrow> nat list" where
  "unravel_index [] k = []"
| "unravel_index (d # ds) k = (k div prod_list ds) # unravel_index ds (k mod prod_list ds)"

text \<open>A matrix given by its entries, and the entry of a matrix.\<close>

definition mk_mat :: "nat \<Rightarrow> nat \<Rightarrow> (nat \<Rightarrow> nat \<Rightarrow> 'a) \<Rightarrow> 'a ndarray" where
  "mk_mat m n f = \<lparr>shape = [m, n], data = map (\<lambda>k. f (k div n) (k mod n)) [0..<m * n]\<rparr>"

definition mat_at :: "'a ndarray \<Rightarrow> nat \<Rightarrow> nat \<Rightarrow> 'a" where
  "mat_at A i j = data A ! (i * (shape A ! 1) + j)"

definition is_matrix :: "'a ndarray \<Rightarrow> nat \<Rightarrow> nat \<Rightarrow> bool" where
  "is_matrix A m n = (shape A = [m, n] \<and> length (data A) = m * n)"

subsection \<open>Broadcasting element-wise operations\<close>

text \<open>
  \<open>A * B\<close>, \<open>A / B\<close>, \<open>A + B\<close>, \<open>A - B\<close> and \<open>np.maximum\<close>: the shapes are aligned at the last
  axis, the shorter one is padded with leading ones, and two dimensions are compatible when
  they are equal or one of them is \<open>1\<close>; otherwise NumPy raises a \<open>ValueError\<close>.
\<close>

definition pad_shape :: "nat \<Rightarrow> nat list \<Rightarrow> nat list" where
  "pad_shape n s = replicate (n - length s) 1 @ s"

fun broadcast_dims :: "nat list \<Rightarrow> nat list \<Rightarrow> error + nat list" where
  "broadcast_dims (a # as) (b # bs) =
     (if a = b \<or> b = 1 then bind_e (broadcast_dims as bs) (\<lambda>r. Inr (a # r))
      else if a = 1 then bind_e (broadcast_dims as bs) (\<lambda>r. Inr (b # r))
      else Inl (ValueError ''operands could not be broadcast together''))"
| "broadcast_dims _ _ = Inr []"

definition bc_source :: "nat list \<Rightarrow> nat list \<Rightarrow> nat" where
  "bc_source s J = ravel_index s (map2 (\<lambda>d j. if d = 1 then 0 else j) s J)"

definition np_binop :: "('a \<Rightarrow> 'b \<Rightarrow> 'c) \<Rightarrow> 'a ndarray \<Rightarrow> 'b ndarray \<Rightarrow> error + 'c ndarray" where
  "np_binop f A B =
     (let n = max (ndim A) (ndim B);
          sa = pad_shape n (shape A);
          sb = pad_shape n (shape B)
      in bind_e (broadcast_dims sa sb) (\<lambda>s.
           Inr \<lparr>shape = s,
                data = map (\<lambda>k. let J = unravel_index s k
                                in f (data A ! bc_source sa J) (data B ! bc_source sb J))
                           [0..<prod_list s]\<rparr>))"

subsection \<open>Matrix product\<close>

text \<open>
  \<open>A @ B\<close> for two 2-D operands: NumPy raises a \<open>ValueError\<close> unless the column count of
  \<open>A\<close> is the row count of \<open>B\<close>. Operands of another rank do not occur in the code modelled
  here and are marked as such.
\<close>

definition matmul :: "('a::comm_semiring_0) ndarray \<Rightarrow> 'a ndarray \<Rightarrow> error + 'a ndarray" where
  "matmul A B =
     (case (shape A, shape B) of
        ([m, k], [k', n]) \<Rightarrow>
          if k = k'
          then Inr (mk_mat m n (\<lambda>i j. \<Sum>l\<leftarrow>[0..<k]. mat_at A i l * mat_at B l j))
          else Inl (ValueError ''matmul: mismatch in core dimension'')
      | _ \<Rightarrow> Inl (Unmodelled ''matmul of operands that are not 2-D''))"

subsection \<open>Transposition, reshaping, unfolding and folding\<close>

text \<open>
  An axis argument of NumPy is normalised against the number of axes; out of range it
  raises \<open>AxisError\<close>.
\<close>

definition norm_axis :: "nat \<Rightarrow> int \<Rightarrow> error + nat" where
  "norm_axis n a = (case py_index n a of None \<Rightarrow> Inl AxisError | Some k \<Rightarrow> Inr k)"

text \<open>
  \<open>np.transpose(A, axes)\<close>: axis \<open>i\<close> of the result is axis \<open>axes[i]\<close> of \<open>A\<close>. The element
  at the multi-index \<open>J\<close> of the result is the element of \<open>A\<close> at the multi-index \<open>I\<close> with
  \<open>I[axes[i]] = J[i]\<close>.
\<close>

fun index_of :: "nat list \<Rightarrow> nat \<Rightarrow> nat" where
  "index_of [] k = 0"
| "index_of (x # xs) k = (if x = k then 0 else Suc (index_of xs k))"

definition np_transpose :: "nat list \<Rightarrow> 'a ndarray \<Rightarrow> 'a ndarray" where
  "np_transpose axes A =
     (let s = map (\<lambda>k. shape A ! k) axes
      in \<lparr>shape = s,
          data = map (\<lambda>j. let J = unravel_index s j
                          in data A ! ravel_index (shape A)
                               (map (\<lambda>k. J ! index_of axes k) [0..<length axes]))
                     [0..<prod_list s]\<rparr>)"

text \<open>
  \<open>np.moveaxis(A, source, destination)\<close> for single axes: the other axes keep their order,
  \<open>source\<close> is inserted at \<open>destination\<close>, and the array is transposed to that order.
\<close>

definition moveaxis :: "'a ndarray \<Rightarrow> int \<Rightarrow> int \<Rightarrow> error + 'a ndarray" where
  "moveaxis A source destination =
     bind_e (norm_axis (ndim A) source) (\<lambda>src.
     bind_e (norm_axis (ndim A) destination) (\<lambda>dst.
       let order = filter (\<lambda>n. n \<noteq> src) [0..<ndim A]
       in Inr (np_transpose (take dst order @ [src] @ drop dst order) A)))"

text \<open>
  \<open>B.reshape(n, -1)\<close>: NumPy infers the second dimension as \<open>size / n\<close> and raises
  \<open>ValueError\<close> ("cannot reshape array of size ... into shape ...") when \<open>n\<close> is \<open>0\<close> or does
  not divide the size. \<open>np.reshape(M, s)\<close> with a full shape raises the same error unless
  the product of \<open>s\<close> is the size.
\<close>

definition reshape_rows :: "'a ndarray \<Rightarrow> nat \<Rightarrow> error + 'a ndarray" where
  "reshape_rows A n =
     (if 0 < n \<and> length (data A) mod n = 0
      then Inr \<lparr>shape = [n, length (data A) div n], data = data A\<rparr>
      else Inl (ValueError ''cannot reshape array''))"

definition np_reshape :: "'a ndarray \<Rightarrow> nat list \<Rightarrow> error + 'a ndarray" where
  "np_reshape M s =
     (if prod_list s = length (data M) then Inr \<lparr>shape = s, data = data M\<rparr>
      else Inl (ValueError ''cannot reshape array''))"

text \<open>\<open>unfold\<close> and \<open>fold\<close> of \<open>base.py\<close>.\<close>

definition unfold :: "'a ndarray \<Rightarrow> int \<Rightarrow> error + 'a ndarray" where
  "unfold A n =
     bind_e (moveaxis A n 0) (\<lambda>B.
     bind_e (py_get (shape A) n) (\<lambda>d.
       reshape_rows B d))"

definition fold_tensor :: "'a ndarray \<Rightarrow> int \<Rightarrow> nat list \<Rightarrow> error + 'a ndarray" where
  "fold_tensor M n shp =
     (case py_index (length shp) n of
        None \<Rightarrow> Inl IndexError
      | Some k \<Rightarrow>
          (let mode_dim = shp ! k;
               newshape = mode_dim # (take k shp @ drop (Suc k) shp)
           in bind_e (np_reshape M newshape) (\<lambda>R. moveaxis R 0 n)))"

definition fold_unfold :: "'a ndarray \<Rightarrow> int \<Rightarrow> error + 'a ndarray" where
  "fold_unfold T n = bind_e (unfold T n) (\<lambda>M. fold_tensor M n (shape T))"

text \<open>Notions used in the proofs: valid multi-indices, permutations of the axes.\<close>

definition valid_index :: "nat list \<Rightarrow> nat list \<Rightarrow> bool" where
  "valid_index ds js = (length js = length ds \<and> (\<forall>i<length ds. js ! i < ds ! i))"

definition perm_axes :: "nat list \<Rightarrow> nat \<Rightarrow> bool" where
  "perm_axes p n = (length p = n \<and> distinct p \<and> set p = {0..<n})"

definition to_front :: "nat \<Rightarrow> nat \<Rightarrow> nat list" where
  "to_front n k = k # ([0..<k] @ [Suc k..<n])"

definition from_front :: "nat \<Rightarrow> nat \<Rightarrow> nat list" where
  "from_front n k = [Suc 0..<Suc k] @ [0] @ [Suc k..<n]"

subsection \<open>Constant arrays and indexing\<close>

definition np_ones :: "nat list \<Rightarrow> ('a::one) ndarray" where
  "np_ones s = \<lparr>shape = s, data = replicate (prod_list s) 1\<rparr>"

definition np_zeros :: "nat list \<Rightarrow> ('a::zero) ndarray" where
  "np_zeros s = \<lparr>shape = s, data = replicate (prod_list s) 0\<rparr>"

text \<open>
  \<open>a[k]\<close> for an array \<open>a\<close> and an integer \<open>k\<close>: the \<open>k\<close>-th sub-array along the first
  axis; \<open>IndexError\<close> for a 0-d array or an index out of range.
\<close>

definition np_getitem :: "'a ndarray \<Rightarrow> int \<Rightarrow> error + 'a ndarray" where
  "np_getitem A k =
     (case shape A of
        [] \<Rightarrow> Inl IndexError
      | d # ds \<Rightarrow>
          (case py_index d k of
             None \<Rightarrow> Inl IndexError
           | Some j \<Rightarrow>
               Inr \<lparr>shape = ds, data = take (prod_list ds) (drop (j * prod_list ds) (data A))\<rparr>))"

text \<open>\<open>np.linalg.norm(A)\<close> without an axis: the Frobenius norm.\<close>

definition linalg_norm :: "real ndarray \<Rightarrow> real" where
  "linalg_norm A = sqrt (\<Sum>x\<leftarrow>data A. x * x)"

subsection \<open>Khatri-Rao products and the matricised-tensor product\<close>

text \<open>A \<open>for\<close> loop that updates an accumulator and may raise.\<close>

fun fold_e :: "('b \<Rightarrow> 'a \<Rightarrow> error + 'b) \<Rightarrow> 'b \<Rightarrow> 'a list \<Rightarrow> error + 'b" where
  "fold_e f acc [] = Inr acc"
| "fold_e f acc (x # xs) = bind_e (f acc x) (\<lambda>acc'. fold_e f acc' xs)"

text \<open>
  \<open>khatri_rao_binary\<close> of \<open>base.py\<close>. Iterating over a matrix yields its rows;
  \<open>row[np.newaxis, :]\<close> prepends an axis of length \<open>1\<close>. The block of row \<open>i\<close> is assigned to
  \<open>out[i*J:(i+1)*J]\<close>, which NumPy refuses unless the block has the shape \<open>(J, K)\<close> of that
  slice (a block of another shape cannot be broadcast to it). Every row of \<open>out\<close> is
  assigned, so that nothing of \<open>np.empty\<close> remains in the result.
\<close>

definition iter_rows :: "'a ndarray \<Rightarrow> 'a ndarray list" where
  "iter_rows A =
     (case shape A of
        [] \<Rightarrow> []
      | d # ds \<Rightarrow>
          map (\<lambda>i. \<lparr>shape = ds, data = take (prod_list ds) (drop (i * prod_list ds) (data A))\<rparr>)
              [0..<d])"

definition newaxis_front :: "'a ndarray \<Rightarrow> 'a ndarray" where
  "newaxis_front A = \<lparr>shape = 1 # shape A, data = data A\<rparr>"

fun krb_blocks :: "('a::times) ndarray \<Rightarrow> nat list \<Rightarrow> 'a ndarray list \<Rightarrow> error + 'a list" where
  "krb_blocks B s [] = Inr []"
| "krb_blocks B s (row # rows) =
     bind_e (np_binop (*) (newaxis_front row) B) (\<lambda>blk.
       if shape blk = s
       then bind_e (krb_blocks B s rows) (\<lambda>rest. Inr (data blk @ rest))
       else Inl (ValueError ''could not broadcast input array''))"

definition khatri_rao_binary :: "('a::times) ndarray \<Rightarrow> 'a ndarray \<Rightarrow> error + 'a ndarray" where
  "khatri_rao_binary A B =
     (case (shape A, shape B) of
        ([I, K0], [J, K]) \<Rightarrow>
          bind_e (krb_blocks B [J, K] (iter_rows A)) (\<lambda>d. Inr \<lparr>shape = [I * J, K], data = d\<rparr>)
      | _ \<Rightarrow> Inl (ValueError ''unpack''))"

text \<open>\<open>khatri_rao\<close> of \<open>base.py\<close>; \<open>list_pop\<close> is \<open>factors.pop(skip)\<close>.\<close>

definition list_pop :: "'a list \<Rightarrow> int \<Rightarrow> error + 'a list" where
  "list_pop xs i =
     (case py_index (length xs) i of
        None \<Rightarrow> Inl IndexError
      | Some j \<Rightarrow> Inr (take j xs @ drop (Suc j) xs))"

definition khatri_rao :: "('a::times) ndarray list \<Rightarrow> int option \<Rightarrow> error + 'a ndarray" where
  "khatri_rao factors skip =
     bind_e (case skip of None \<Rightarrow> Inr factors | Some k \<Rightarrow> list_pop factors k) (\<lambda>fs.
       case fs of
         [] \<Rightarrow> Inl IndexError
       | product # rest \<Rightarrow> fold_e khatri_rao_binary product rest)"

text \<open>
  \<open>M[a:b]\<close> for non-negative bounds (a slice is clipped to the array), and the in-place
  \<open>product += V\<close>, whose result must have the shape of \<open>product\<close>.
\<close>

definition np_slice_rows :: "'a ndarray \<Rightarrow> nat \<Rightarrow> nat \<Rightarrow> error + 'a ndarray" where
  "np_slice_rows A a b =
     (case shape A of
        [] \<Rightarrow> Inl IndexError
      | d # ds \<Rightarrow>
          (let lo = min a d; hi = max lo (min b d)
           in Inr \<lparr>shape = (hi - lo) # ds,
                   data = take ((hi - lo) * prod_list ds) (drop (lo * prod_list ds) (data A))\<rparr>))"

definition np_iadd :: "('a::plus) ndarray \<Rightarrow> 'a ndarray \<Rightarrow> error + 'a ndarray" where
  "np_iadd P V =
     bind_e (np_binop (+) P V) (\<lambda>R.
       if shape R = shape P then Inr R
       else Inl (ValueError ''non-broadcastable output operand''))"

text \<open>
  \<open>_mttkrp_mid_with_krp\<close>, \<open>_mttkrp_mid\<close>, \<open>_mttkrp3\<close> and \<open>matrix_khatri_rao_product\<close> of
  \<open>base.py\<close>. \<open>mttkrp_unfolded\<close> is the expression
  \<open>unfold(X, mode) @ khatri_rao(*tuple(factors), skip=mode)\<close> of the general path.
  \<open>_mttkrp3\<close> returns \<open>None\<close> for a mode other than \<open>0\<close>, \<open>1\<close>, \<open>2\<close> and \<open>-1\<close>.
\<close>

definition mttkrp_mid_with_krp ::
  "('a::comm_semiring_0) ndarray \<Rightarrow> 'a ndarray \<Rightarrow> error + 'a ndarray" where
  "mttkrp_mid_with_krp tensor krp =
     bind_e (py_get (shape tensor) (- 1)) (\<lambda>block_size.
     bind_e (py_get (shape tensor) (- 2)) (\<lambda>num_rows.
     bind_e (py_get (shape krp) (- 1)) (\<lambda>num_cols.
     bind_e (py_get (shape tensor) 0) (\<lambda>n.
       fold_e (\<lambda>product i.
                 let idx = i mod n
                 in bind_e (np_getitem tensor (int idx)) (\<lambda>t.
                    bind_e (np_slice_rows krp (i * block_size) ((i + 1) * block_size)) (\<lambda>k.
                    bind_e (matmul t k) (\<lambda>m.
                      np_iadd product m))))
              (np_zeros [num_rows, num_cols]) [0..<n]))))"

definition mttkrp_mid :: "('a::comm_semiring_0) ndarray \<Rightarrow> 'a ndarray list \<Rightarrow> error + 'a ndarray" where
  "mttkrp_mid tensor matrices =
     bind_e (khatri_rao matrices (Some 1)) (\<lambda>krp. mttkrp_mid_with_krp tensor krp)"

definition mttkrp_unfolded ::
  "('a::comm_semiring_0) ndarray \<Rightarrow> 'a ndarray list \<Rightarrow> int \<Rightarrow> error + 'a ndarray" where
  "mttkrp_unfolded X factors mode =
     bind_e (unfold X mode) (\<lambda>U.
     bind_e (khatri_rao factors (Some mode)) (\<lambda>krp.
       matmul U krp))"

definition mttkrp3 ::
  "('a::comm_semiring_0) ndarray \<Rightarrow> 'a ndarray list \<Rightarrow> int \<Rightarrow> error + 'a ndarray option" where
  "mttkrp3 X factors mode =
     (if mode = 0 then
        bind_e (py_get (shape X) 0) (\<lambda>d.
        bind_e (reshape_rows X d) (\<lambda>U.
        bind_e (khatri_rao factors (Some mode)) (\<lambda>krp.
        bind_e (matmul U krp) (\<lambda>M. Inr (Some M)))))
      else if mode = 1 then
        bind_e (mttkrp_mid X factors) (\<lambda>M. Inr (Some M))
      else if mode = 2 \<or> mode = - 1 then
        bind_e (moveaxis X (- 1) 0) (\<lambda>B.
        bind_e (py_get (shape X) (- 1)) (\<lambda>d.
        bind_e (reshape_rows B d) (\<lambda>U.
        bind_e (khatri_rao factors (Some mode)) (\<lambda>krp.
        bind_e (matmul U krp) (\<lambda>M. Inr (Some M))))))
      else Inr None)"

definition matrix_khatri_rao_product ::
  "('a::comm_semiring_0) ndarray \<Rightarrow> 'a ndarray list \<Rightarrow> int \<Rightarrow> error + 'a ndarray option" where
  "matrix_khatri_rao_product X factors mode =
     (if ndim X \<noteq> length factors then Inl AssertionError
      else if length factors = 3 then mttkrp3 X factors mode
      else bind_e (mttkrp_unfolded X factors mode) (\<lambda>M. Inr (Some M)))"

section \<open>Kruskal tensors\<close>

text \<open>
  \<open>KruskalTensor\<close> of \<open>base.py\<close>: the list of factor matrices, the weights and the rank.
  \<open>weights\<close> holds \<open>self.weights\<close>.
\<close>

record 'a KruskalTensor =
  factor_matrices :: "'a ndarray list"
  weights :: "'a ndarray"
  rank :: nat

text \<open>\<open>len(a)\<close> of an array: its first dimension; a 0-d array has no length.\<close>

definition py_len :: "'a ndarray \<Rightarrow> error + nat" where
  "py_len A = (case shape A of [] \<Rightarrow> Inl TypeError | d # _ \<Rightarrow> Inr d)"

text \<open>
  The loop of \<open>KruskalTensor.__init__\<close> over the factor matrices. The message of its
  \<open>ValueError\<close> is an f-string that reads the variable \<open>i\<close>; the loop is
  \<open>for factor_matrix in factor_matrices\<close>, and neither the method nor the module binds
  \<open>i\<close>, so that formatting the message raises \<open>NameError\<close> before the \<open>ValueError\<close> is built.
\<close>

fun check_columns :: "nat \<Rightarrow> 'a ndarray list \<Rightarrow> error + unit" where
  "check_columns r [] = Inr ()"
| "check_columns r (fm # fms) =
     bind_e (py_get (shape fm) 1) (\<lambda>c.
       if c \<noteq> r then Inl (NameError ''i'') else check_columns r fms)"

definition KruskalTensor_init ::
  "('a::one) ndarray list \<Rightarrow> 'a ndarray option \<Rightarrow> error + 'a KruskalTensor" where
  "KruskalTensor_init fms w =
     bind_e (py_get fms 0) (\<lambda>fm0.
     bind_e (py_get (shape fm0) 1) (\<lambda>r.
     bind_e (check_columns r fms) (\<lambda>_.
       case w of
         None \<Rightarrow> Inr \<lparr>factor_matrices = fms, weights = np_ones [r], rank = r\<rparr>
       | Some ws \<Rightarrow>
           bind_e (py_len ws) (\<lambda>l.
             if l \<noteq> r then Inl (ValueError ''There must be as many weights as there are columns'')
             else Inr \<lparr>factor_matrices = fms, weights = ws, rank = r\<rparr>))))"

subsection \<open>Construction and normalisation\<close>

text \<open>
  \<open>A.T\<close> reverses the axes. \<open>np.linalg.norm(A, axis=0)\<close> is the Euclidean norm along the
  first axis, for a matrix the vector of its column norms. \<open>w *= v\<close> multiplies in place.
\<close>

definition np_T :: "'a ndarray \<Rightarrow> 'a ndarray" where
  "np_T A = np_transpose (rev [0..<ndim A]) A"

definition linalg_norm_axis0 :: "real ndarray \<Rightarrow> error + real ndarray" where
  "linalg_norm_axis0 A =
     (case shape A of
        [] \<Rightarrow> Inl AxisError
      | d # ds \<Rightarrow>
          Inr \<lparr>shape = ds,
               data = map (\<lambda>j. sqrt (\<Sum>i\<leftarrow>[0..<d]. (data A ! (i * prod_list ds + j))\<^sup>2))
                          [0..<prod_list ds]\<rparr>)"

definition np_imul :: "('a::times) ndarray \<Rightarrow> 'a ndarray \<Rightarrow> error + 'a ndarray" where
  "np_imul P V =
     bind_e (np_binop (*) P V) (\<lambda>R.
       if shape R = shape P then Inr R
       else Inl (ValueError ''non-broadcastable output operand''))"

text \<open>
  \<open>KruskalTensor.construct_tensor\<close>: it replaces 1-D weights by the row
  \<open>weights[np.newaxis, ...]\<close> in \<open>self\<close>, and returns
  \<open>fold((weights * factor_matrices[0]) @ khatri_rao(*factor_matrices[1:]).T, 0, shape)\<close>.
  The result is the tensor and the updated object.
\<close>

definition construct_tensor ::
  "('a::comm_semiring_0) KruskalTensor \<Rightarrow> error + 'a ndarray \<times> 'a KruskalTensor" where
  "construct_tensor kt =
     (let kt1 = (if length (shape (weights kt)) = 1
                 then kt\<lparr>weights := newaxis_front (weights kt)\<rparr> else kt)
      in bind_e (fold_e (\<lambda>acc f. bind_e (py_get (shape f) 0) (\<lambda>d. Inr (acc @ [d])))
                   [] (factor_matrices kt1)) (\<lambda>shp.
         bind_e (py_get (factor_matrices kt1) 0) (\<lambda>fm0.
         bind_e (np_binop (*) (weights kt1) fm0) (\<lambda>wf.
         bind_e (khatri_rao (tl (factor_matrices kt1)) None) (\<lambda>krp.
         bind_e (matmul wf (np_T krp)) (\<lambda>tensor.
         bind_e (fold_tensor tensor 0 shp) (\<lambda>t. Inr (t, kt1))))))))"

text \<open>
  \<open>KruskalTensor.normalize_components\<close>: \<open>weights\<close> starts as \<open>np.ones(self.rank)\<close>; each
  factor matrix is divided by its column norms and the norms are multiplied into \<open>weights\<close>;
  with \<open>update_weights\<close> the result replaces \<open>self.weights\<close>. Where an entry is divided by a
  zero norm NumPy yields \<open>nan\<close>, which no real number stands for: there the model stops with
  \<open>Unmodelled\<close>. A factor matrix without entries divides nothing.
\<close>

fun normalize_loop ::
  "real ndarray list \<Rightarrow> real ndarray \<Rightarrow> error + real ndarray list \<times> real ndarray" where
  "normalize_loop [] w = Inr ([], w)"
| "normalize_loop (factor_matrix # fms) w =
     bind_e (linalg_norm_axis0 factor_matrix) (\<lambda>norms.
     if data factor_matrix \<noteq> [] \<and> 0 \<in> set (data norms)
     then Inl (Unmodelled ''division by zero'')
     else
     bind_e (np_binop (/) factor_matrix (newaxis_front norms)) (\<lambda>fm'.
     bind_e (np_imul w norms) (\<lambda>w'.
     bind_e (normalize_loop fms w') (\<lambda>(fs, wf). Inr (fm' # fs, wf)))))"

definition normalize_components ::
  "real KruskalTensor \<Rightarrow> bool \<Rightarrow> error + real KruskalTensor" where
  "normalize_components kt update_weights =
     bind_e (normalize_loop (factor_matrices kt) (np_ones [rank kt])) (\<lambda>(fs, w).
       Inr (if update_weights then kt\<lparr>factor_matrices := fs, weights := w\<rparr>
            else kt\<lparr>factor_matrices := fs\<rparr>))"

text \<open>
  The tensor \<open>construct_tensor\<close> returns, the Euclidean norm of a column, and notions used in
  the statements: a factor matrix with \<open>n\<close> columns, a vector given by its entries, a matrix
  with its columns divided by their norms.
\<close>

definition tensor_of :: "('a::comm_semiring_0) KruskalTensor \<Rightarrow> error + 'a ndarray" where
  "tensor_of kt = bind_e (construct_tensor kt) (\<lambda>(t, kt'). Inr t)"

definition colnorm :: "real ndarray \<Rightarrow> nat \<Rightarrow> real" where
  "colnorm F r = sqrt (\<Sum>i\<leftarrow>[0..<shape F ! 0]. (mat_at F i r)\<^sup>2)"

definition factor_ok :: "nat \<Rightarrow> 'a ndarray \<Rightarrow> bool" where
  "factor_ok n F = is_matrix F (shape F ! 0) n"

definition mk_vec :: "nat \<Rightarrow> (nat \<Rightarrow> 'a) \<Rightarrow> 'a ndarray" where
  "mk_vec n f = \<lparr>shape = [n], data = map f [0..<n]\<rparr>"

definition unit_columns :: "real ndarray \<Rightarrow> real ndarray" where
  "unit_columns F = mk_mat (shape F ! 0) (shape F ! 1) (\<lambda>i r. mat_at F i r / colnorm F r)"

section \<open>The ADMM subproblem\<close>

text \<open>
  The arrays of the ADMM solver hold floating-point numbers, and a floating-point number
  may be \<open>nan\<close>. A number is a real number or \<open>nan\<close> here: arithmetic on real numbers is exact,
  an operation with a \<open>nan\<close> operand yields \<open>nan\<close>, and a comparison with \<open>nan\<close> is false.
  Rounding and the infinities are left out. \<open>fmax\<close> is \<open>np.maximum\<close> on two numbers, which
  propagates \<open>nan\<close>; \<open>np_sqrt\<close> yields \<open>nan\<close> on a negative number; \<open>fless\<close> is \<open><\<close>, and
  \<open>nonneg_entry x\<close> is \<open>0 <= x\<close>.
\<close>

datatype float64 = Num real | NaN

instantiation float64 :: "{zero, one, plus, minus, times}"
begin

definition zero_float64_def: "0 = Num 0"

definition one_float64_def: "1 = Num 1"

definition plus_float64_def:
  "x + y = (case (x, y) of (Num a, Num b) \<Rightarrow> Num (a + b) | _ \<Rightarrow> NaN)"

definition minus_float64_def:
  "x - y = (case (x, y) of (Num a, Num b) \<Rightarrow> Num (a - b) | _ \<Rightarrow> NaN)"

definition times_float64_def:
  "x * y = (case (x, y) of (Num a, Num b) \<Rightarrow> Num (a * b) | _ \<Rightarrow> NaN)"

instance ..

end

definition fmax :: "float64 \<Rightarrow> float64 \<Rightarrow> float64" where
  "fmax x y = (case (x, y) of (Num a, Num b) \<Rightarrow> Num (max a b) | _ \<Rightarrow> NaN)"



definition nonneg_entry :: "float64 \<Rightarrow> bool" where
  "nonneg_entry x = (case x of Num a \<Rightarrow> 0 \<le> a | NaN \<Rightarrow> False)"

text \<open>
  Array operations of \<open>block_parafac2.py\<close>: \<open>np.maximum(A, c)\<close> and \<open>c * A\<close> with a scalar
  \<open>c\<close>, \<open>np.identity\<close>, \<open>np.linalg.norm\<close> (the square root of the sum of the squares),
  \<open>np.concatenate\<close> of two arrays along axis \<open>0\<close>, and the assignment
  \<open>dst[:] = src\<close>, which broadcasts \<open>src\<close> to the shape of \<open>dst\<close> (leading axes of length \<open>1\<close>
  that \<open>src\<close> has in excess are dropped first) and raises \<open>ValueError\<close> when it cannot.
\<close>

definition np_maximum_scalar :: "float64 ndarray \<Rightarrow> float64 \<Rightarrow> float64 ndarray" where
  "np_maximum_scalar A c = \<lparr>shape = shape A, data = map (\<lambda>x. fmax x c) (data A)\<rparr>"


definition np_identity :: "nat \<Rightarrow> ('a::{zero,one}) ndarray" where
  "np_identity n = mk_mat n n (\<lambda>i j. if i = j then 1 else 0)"



fun strip_ones :: "nat \<Rightarrow> nat list \<Rightarrow> nat list" where
  "strip_ones n (d # ds) = (if n < length (d # ds) \<and> d = 1 then strip_ones n ds else d # ds)"
| "strip_ones n [] = []"









text \<open>
  Notions used in the statements: an array without \<open>nan\<close>, an array of non-negative numbers,
  an array whose entries are non-negative or \<open>nan\<close>.
\<close>

definition nan_free :: "float64 ndarray \<Rightarrow> bool" where
  "nan_free A = (NaN \<notin> set (data A))"


definition nonneg_or_nan :: "float64 ndarray \<Rightarrow> bool" where
  "nonneg_or_nan A = list_all (\<lambda>x. x = NaN \<or> nonneg_entry x) (data A)"

section \<open>Evolving tensors\<close>

text \<open>
  \<open>EvolvingTensor\<close> of \<open>base.py\<close>. \<open>fm0\<close>, \<open>fm1\<close> and \<open>fm2\<close> are
  \<open>self.factor_matrices[0]\<close>, \<open>[1]\<close> and \<open>[2]\<close>: the loadings \<open>A\<close>, the list of the
  per-slice matrices \<open>B_k\<close>, and \<open>C\<close> with one row per slice.
\<close>

record 'a EvolvingTensor =
  fm0 :: "'a ndarray"
  fm1 :: "'a ndarray list"
  fm2 :: "'a ndarray"

definition construct_slice :: "('a::comm_semiring_0) EvolvingTensor \<Rightarrow> int \<Rightarrow> error + 'a ndarray" where
  "construct_slice E k =
     (let loadings = fm0 E
      in bind_e (np_getitem (fm2 E) k) (\<lambda>c.
         bind_e (py_get (fm1 E) k) (\<lambda>b.
         bind_e (np_binop (*) c b) (\<lambda>scores.
           matmul loadings scores))))"

text \<open>
  The matrix the documentation of \<open>Parafac2Tensor\<close> gives for the \<open>k\<close>-th slice,
  \<open>A diag(C_k) B_k^T\<close>: its entry \<open>(i, j)\<close> is the sum over \<open>r\<close> of
  \<open>A[i, r] * C[k, r] * B_k[j, r]\<close>.
\<close>

definition documented_slice ::
  "('a::comm_semiring_0) ndarray \<Rightarrow> 'a ndarray \<Rightarrow> 'a ndarray \<Rightarrow> nat \<Rightarrow> 'a ndarray" where
  "documented_slice A Bk C k =
     mk_mat (shape A ! 0) (shape Bk ! 0)
       (\<lambda>i j. \<Sum>r\<leftarrow>[0..<shape A ! 1]. mat_at A i r * mat_at C k r * mat_at Bk j r)"

section \<open>The decomposer\<close>

text \<open>
  The state of a \<open>BaseDecomposer\<close> (\<open>decomposition/base_decomposer.py\<close>): the attributes its
  methods read and write (\<open>self_X\<close> is \<open>self.X\<close>). Attributes of a subclass (for \<open>CP_ALS\<close>,
  the convergence trackers) live in the extension of the record. A method mutates \<open>self\<close> and may raise: it returns
  the exception or \<open>()\<close>, together with the state it leaves behind.
\<close>

record 'd decomposer =
  self_X :: "real ndarray"
  X_norm :: real
  decomposition :: 'd
  current_iteration :: int
  max_its :: int

text \<open>
  \<open>BaseCP\<close> and \<open>CP_ALS\<close> of \<open>decomposition/cp.py\<close> add attributes: \<open>self_rank\<close> is
  \<open>self.rank\<close>, \<open>self_init\<close> is \<open>self.init\<close>, and \<open>rel_function_change\<close> is
  \<open>self._rel_function_change\<close>.
\<close>

record 'd BaseCP = "'d decomposer" +
  self_rank :: int
  convergence_tol :: real
  self_init :: string

record 'd CP_ALS = "'d BaseCP" +
  rel_function_change :: real
  prev_SSE :: real

definition set_target :: "real ndarray \<Rightarrow> ('d, 'z) decomposer_scheme \<Rightarrow> ('d, 'z) decomposer_scheme" where
  "set_target Xn s = s\<lparr>self_X := Xn, X_norm := linalg_norm Xn\<rparr>"

text \<open>
  \<open>init_components\<close> and \<open>_fit\<close> are abstract in \<open>BaseDecomposer\<close>: they are parameters
  \<open>ic\<close> and \<open>fitp\<close> here.
\<close>

definition init_fit ::
  "('i option \<Rightarrow> ('d, 'z) decomposer_scheme \<Rightarrow> (error + unit) \<times> ('d, 'z) decomposer_scheme) \<Rightarrow>
   real ndarray \<Rightarrow> int option \<Rightarrow> 'i option \<Rightarrow> ('d, 'z) decomposer_scheme \<Rightarrow>
   (error + unit) \<times> ('d, 'z) decomposer_scheme" where
  "init_fit ic Xn m initial_decomposition s =
     (let s1 = s\<lparr>current_iteration := 0\<rparr>;
          s2 = set_target Xn s1
      in case ic initial_decomposition s2 of
           (Inl e, s3) \<Rightarrow> (Inl e, s3)
         | (Inr _, s3) \<Rightarrow>
             (case m of None \<Rightarrow> (Inr (), s3) | Some v \<Rightarrow> (Inr (), s3\<lparr>max_its := v\<rparr>)))"

definition fit ::
  "('i option \<Rightarrow> ('d, 'z) decomposer_scheme \<Rightarrow> (error + unit) \<times> ('d, 'z) decomposer_scheme) \<Rightarrow>
   (('d, 'z) decomposer_scheme \<Rightarrow> (error + unit) \<times> ('d, 'z) decomposer_scheme) \<Rightarrow>
   real ndarray \<Rightarrow> int option \<Rightarrow> 'i option \<Rightarrow> ('d, 'z) decomposer_scheme \<Rightarrow>
   (error + unit) \<times> ('d, 'z) decomposer_scheme" where
  "fit ic fitp Xn m initial_decomposition s =
     (case init_fit ic Xn m initial_decomposition s of
        (Inl e, s1) \<Rightarrow> (Inl e, s1)
      | (Inr _, s1) \<Rightarrow> fitp s1)"

definition continue_fit ::
  "(('d, 'z) decomposer_scheme \<Rightarrow> (error + unit) \<times> ('d, 'z) decomposer_scheme) \<Rightarrow>
   int option \<Rightarrow> ('d, 'z) decomposer_scheme \<Rightarrow>
   (error + unit) \<times> ('d, 'z) decomposer_scheme" where
  "continue_fit fitp m s =
     (case m of None \<Rightarrow> fitp s | Some v \<Rightarrow> fitp (s\<lparr>max_its := v\<rparr>))"

subsection \<open>Checkpoints\<close>







subsection \<open>Initialisation of the factor matrices\<close>

text \<open>
  \<open>str.lower\<close> on the letters \<open>A\<close> to \<open>Z\<close>; every other character is left as it is.
\<close>

definition ascii_lower :: "char \<Rightarrow> char" where
  "ascii_lower c =
     (let n = (of_char c :: nat)
      in if 65 \<le> n \<and> n \<le> 90 then char_of (n + 32) else c)"

definition str_lower :: "string \<Rightarrow> string" where
  "str_lower s = map ascii_lower s"

text \<open>
  The builtin \<open>min\<close> of a tuple of axis lengths: a \<open>ValueError\<close> on the empty tuple.
\<close>

definition py_min :: "nat list \<Rightarrow> error + nat" where
  "py_min xs =
     (case xs of
        [] \<Rightarrow> Inl (ValueError ''min() arg is an empty sequence'')
      | x # ys \<Rightarrow> Inr (fold min ys x))"

text \<open>
  \<open>u[:, :r]\<close>: the stop of the slice is clipped to the number of columns, and a negative
  stop counts from the end.
\<close>

definition py_slice_stop :: "int \<Rightarrow> nat \<Rightarrow> nat" where
  "py_slice_stop r n = (if r < 0 then nat (max 0 (int n + r)) else min (nat r) n)"

definition np_take_columns :: "'a ndarray \<Rightarrow> int \<Rightarrow> error + 'a ndarray" where
  "np_take_columns u r =
     (case shape u of
        [] \<Rightarrow> Inl IndexError
      | [m] \<Rightarrow> Inl IndexError
      | [m, n] \<Rightarrow> Inr (mk_mat m (py_slice_stop r n) (\<lambda>i j. mat_at u i j))
      | _ \<Rightarrow> Inl (Unmodelled ''column slice of an array with more than two axes''))"

text \<open>
  \<open>BaseCP.init_svd\<close>. The left factor returned by \<open>np.linalg.svd\<close> is the parameter
  \<open>svd_u\<close>. The message of the \<open>ValueError\<close> is kept without its formatted suffix
  (the rank and the shape).
\<close>

definition init_svd ::
  "(real ndarray \<Rightarrow> error + real ndarray) \<Rightarrow>
   (real KruskalTensor, 'z) BaseCP_scheme \<Rightarrow>
   (error + unit) \<times> (real KruskalTensor, 'z) BaseCP_scheme" where
  "init_svd svd_u s =
     (let n_modes = length (shape (self_X s))
      in case py_min (shape (self_X s)) of
           Inl e \<Rightarrow> (Inl e, s)
         | Inr m \<Rightarrow>
             if self_rank s > int m
             then (Inl (ValueError ''SVD initialisation does not work when rank is larger than the smallest dimension of X''), s)
             else
               (case fold_e (\<lambda>fms i.
                        bind_e (unfold (self_X s) (int i)) (\<lambda>U.
                        bind_e (svd_u U) (\<lambda>u.
                        bind_e (np_take_columns u (self_rank s)) (\<lambda>f.
                          Inr (fms @ [f])))))
                      [] [0..<n_modes] of
                  Inl e \<Rightarrow> (Inl e, s)
                | Inr fms \<Rightarrow>
                    (case KruskalTensor_init fms None of
                       Inl e \<Rightarrow> (Inl e, s)
                     | Inr kt \<Rightarrow> (Inr (), s\<lparr>decomposition := kt\<rparr>))))"

text \<open>
  \<open>BaseCP._check_valid_components\<close>: the loop over \<open>enumerate(decomposition.factor_matrices)\<close>.
  Unpacking a shape that has not exactly two entries raises a \<open>ValueError\<close>.
\<close>

fun check_valid_loop :: "int \<Rightarrow> nat list \<Rightarrow> nat \<Rightarrow> 'a ndarray list \<Rightarrow> error + unit" where
  "check_valid_loop r xshape i [] = Inr ()"
| "check_valid_loop r xshape i (factor_matrix # fms) =
     (case shape factor_matrix of
        [len, rnk] \<Rightarrow>
          if int rnk \<noteq> r then Inl (ValueError ''The specified factor matrix rank does not agree with the model rank'')
          else bind_e (py_get xshape (int i)) (\<lambda>xlen.
                 if len \<noteq> xlen then Inl (ValueError ''The length of component is not the same as the length of the dimension of X'')
                 else check_valid_loop r xshape (Suc i) fms)
      | _ \<Rightarrow> Inl (ValueError ''unpack''))"

definition check_valid_components ::
  "'a KruskalTensor \<Rightarrow> ('d, 'z) BaseCP_scheme \<Rightarrow> error + unit" where
  "check_valid_components kt s =
     check_valid_loop (self_rank s) (shape (self_X s)) 0 (factor_matrices kt)"

text \<open>
  \<open>BaseCP.init_components\<close>. The argument \<open>initial_decomposition\<close> is \<open>None\<close>, a
  decomposition or a checkpoint path. \<open>init_random\<close> and \<open>load_checkpoint\<close> are parameters:
  the first draws random numbers, the second reads a file.
\<close>

datatype 'a initial = InitialTensor "'a KruskalTensor" | InitialPath string

definition init_components ::
  "((real KruskalTensor, 'z) BaseCP_scheme \<Rightarrow> (error + unit) \<times> (real KruskalTensor, 'z) BaseCP_scheme) \<Rightarrow>
   (real ndarray \<Rightarrow> error + real ndarray) \<Rightarrow>
   (real initial option \<Rightarrow> (real KruskalTensor, 'z) BaseCP_scheme \<Rightarrow>
      (error + unit) \<times> (real KruskalTensor, 'z) BaseCP_scheme) \<Rightarrow>
   real initial option \<Rightarrow> (real KruskalTensor, 'z) BaseCP_scheme \<Rightarrow>
   (error + unit) \<times> (real KruskalTensor, 'z) BaseCP_scheme" where
  "init_components init_random svd_u load_ckpt initial_decomposition s =
     (let m = str_lower (self_init s)
      in if initial_decomposition \<noteq> None \<and> m \<notin> set [''precomputed'', ''from_checkpoint'']
         then (Inl (PyWarning ''Precomputed components were passed''), s)
         else if m = ''random'' then init_random s
         else if m = ''svd'' then init_svd svd_u s
         else if m = ''from_checkpoint'' then load_ckpt initial_decomposition s
         else if m = ''precomputed'' then
           (case initial_decomposition of
              Some (InitialTensor kt) \<Rightarrow>
                (case check_valid_components kt s of
                   Inl e \<Rightarrow> (Inl e, s)
                 | Inr _ \<Rightarrow> (Inr (), s\<lparr>decomposition := kt\<rparr>))
            | _ \<Rightarrow> (Inl (Unmodelled ''attribute access on something that is not a decomposition''), s))
         else (Inl (ValueError ''Init method must be either random, svd, from_checkpoint or precomputed''), s))"

text \<open>
  What is assumed of \<open>np.linalg.svd\<close> with the default \<open>full_matrices=True\<close>: on an
  \<open>m \<times> n\<close> matrix it returns, and its first result is an \<open>m \<times> m\<close> matrix.
\<close>

definition svd_contract :: "(real ndarray \<Rightarrow> error + real ndarray) \<Rightarrow> bool" where
  "svd_contract svd_u = (\<forall>M m n. is_matrix M m n \<longrightarrow> (\<exists>u. svd_u M = Inr u \<and> is_matrix u m m))"

text \<open>
  The body of the loop of \<open>init_svd\<close>, and the factor matrix it appends for the mode \<open>i\<close>.
\<close>

definition svd_loop_body ::
  "(real ndarray \<Rightarrow> error + real ndarray) \<Rightarrow> real ndarray \<Rightarrow> int \<Rightarrow>
   real ndarray list \<Rightarrow> nat \<Rightarrow> error + real ndarray list" where
  "svd_loop_body svd_u T r = (\<lambda>fms i.
      bind_e (unfold T (int i)) (\<lambda>U.
      bind_e (svd_u U) (\<lambda>u.
      bind_e (np_take_columns u r) (\<lambda>f. Inr (fms @ [f])))))"

definition svd_factor ::
  "(real ndarray \<Rightarrow> error + real ndarray) \<Rightarrow> real ndarray \<Rightarrow> int \<Rightarrow> nat \<Rightarrow> error + real ndarray" where
  "svd_factor svd_u T r i =
     bind_e (unfold T (int i)) (\<lambda>U. bind_e (svd_u U) (\<lambda>u. np_take_columns u r))"

section \<open>Index arithmetic and transposition\<close>

lemma length_unravel [simp]: "length (unravel_index ds k) = length ds"
  by (induction ds arbitrary: k) auto

lemma ravel_unravel: "k < prod_list ds \<Longrightarrow> ravel_index ds (unravel_index ds k) = k"
proof (induction ds arbitrary: k)
  case Nil then show ?case by simp
next
  case (Cons d ds)
  then have "0 < prod_list ds" by (cases "prod_list ds = 0") auto
  then have "k mod prod_list ds < prod_list ds" by simp
  then show ?case using Cons.IH by simp
qed

lemma unravel_bound:
  "k < prod_list ds \<Longrightarrow> i < length ds \<Longrightarrow> unravel_index ds k ! i < ds ! i"
proof (induction ds arbitrary: k i)
  case Nil then show ?case by simp
next
  case (Cons d ds)
  then have pos: "0 < prod_list ds" by (cases "prod_list ds = 0") auto
  show ?case
  proof (cases i)
    case 0
    have "k < d * prod_list ds" using Cons.prems by simp
    then have "k div prod_list ds < d" using pos
      by (simp add: less_mult_imp_div_less mult.commute)
    then show ?thesis using 0 by simp
  next
    case (Suc j)
    then show ?thesis using Cons pos by simp
  qed
qed

lemma valid_index_Cons:
  "valid_index (d # ds) (j # js) = (j < d \<and> valid_index ds js)"
  unfolding valid_index_def
  by (auto simp: nth_Cons split: nat.splits) 

lemma ravel_bound: "valid_index ds js \<Longrightarrow> ravel_index ds js < prod_list ds"
proof (induction ds js rule: ravel_index.induct)
  case (1 d ds i js)
  then have a: "i < d" and b: "ravel_index ds js < prod_list ds"
    by (simp_all add: valid_index_Cons)
  have "i * prod_list ds + ravel_index ds js < Suc i * prod_list ds" using b by simp
  also have "\<dots> \<le> d * prod_list ds" using a by (intro mult_le_mono1) simp
  finally show ?case by simp
qed (auto simp: valid_index_def)

lemma unravel_ravel: "valid_index ds js \<Longrightarrow> unravel_index ds (ravel_index ds js) = js"
proof (induction ds js rule: ravel_index.induct)
  case (1 d ds i js)
  then have v: "valid_index ds js" by (simp add: valid_index_Cons)
  then have b: "ravel_index ds js < prod_list ds" by (rule ravel_bound)
  then show ?case using 1 v by simp
qed (auto simp: valid_index_def)

lemma valid_unravel: "k < prod_list ds \<Longrightarrow> valid_index ds (unravel_index ds k)"
  by (simp add: valid_index_def unravel_bound)

lemma index_of_nth: "distinct p \<Longrightarrow> i < length p \<Longrightarrow> index_of p (p ! i) = i"
proof (induction p arbitrary: i)
  case Nil then show ?case by simp
next
  case (Cons x xs)
  then show ?case by (cases i) auto
qed

lemma nth_index_of: "k \<in> set p \<Longrightarrow> index_of p k < length p \<and> p ! index_of p k = k"
  by (induction p) auto

lemma perm_axes_inverse:
  assumes p: "perm_axes p n" and q: "perm_axes q n"
    and inv: "\<forall>i<n. p ! (q ! i) = i" and i: "i < n"
  shows "index_of q i = p ! i" and "index_of p i = q ! i" and "p ! i < n" and "q ! i < n"
    and "index_of q i < n" and "index_of p i < n"
proof -
  have lp: "length p = n" and lq: "length q = n" and dp: "distinct p" and dq: "distinct q"
    and sp: "set p = {0..<n}" and sq: "set q = {0..<n}"
    using p q by (auto simp: perm_axes_def)
  have iq: "i \<in> set q" and ip: "i \<in> set p" using i sp sq by auto
  show qn: "q ! i < n" using i lq sq nth_mem [of i q] by auto
  show pn: "p ! i < n" using i lp sp nth_mem [of i p] by auto
  have a: "index_of q i < n" "q ! index_of q i = i" using nth_index_of [OF iq] lq by auto
  show "index_of q i < n" by fact
  have "p ! (q ! index_of q i) = index_of q i" using inv a(1) by blast
  then show "index_of q i = p ! i" using a(2) by simp
  have "index_of p (p ! (q ! i)) = q ! i" using index_of_nth [OF dp] qn lp by simp
  then show "index_of p i = q ! i" using inv i by simp
  then show "index_of p i < n" using qn by simp
qed

lemma prod_list_perm_axes:
  assumes "perm_axes p (length s)"
  shows "prod_list (map (\<lambda>k. s ! k) p) = prod_list (s :: nat list)"
proof -
  have "mset p = mset [0..<length s]"
    using assms by (intro iffD1 [OF set_eq_iff_mset_eq_distinct]) (auto simp: perm_axes_def)
  then have "mset (map (\<lambda>k. s ! k) p) = mset (map (\<lambda>k. s ! k) [0..<length s])"
    by (metis mset_map)
  then have "prod_mset (mset (map (\<lambda>k. s ! k) p)) = prod_mset (mset (map (\<lambda>k. s ! k) [0..<length s]))"
    by simp
  then show ?thesis by (simp add: map_nth flip: prod_mset_prod_list)
qed

lemma shape_np_transpose [simp]: "shape (np_transpose p A) = map (\<lambda>k. shape A ! k) p"
  by (simp add: np_transpose_def Let_def)

lemma np_transpose_inverse:
  assumes wf: "wf_array A" and p: "perm_axes p (ndim A)" and q: "perm_axes q (ndim A)"
    and inv: "\<forall>i<ndim A. p ! (q ! i) = i"
  shows "np_transpose q (np_transpose p A) = A"
proof -
  define s where "s = shape A"
  define n where "n = length s"
  define sB where "sB = map (\<lambda>k. s ! k) p"
  have n: "ndim A = n" by (simp add: ndim_def n_def s_def)
  have lp: "length p = n" and lq: "length q = n" using p q n by (auto simp: perm_axes_def)
  note I = perm_axes_inverse [OF p [unfolded n] q [unfolded n] inv [unfolded n]]
  have lsB: "length sB = n" by (simp add: sB_def lp)
  have sB_nth: "sB ! i = s ! (p ! i)" if "i < n" for i using that by (simp add: sB_def lp)
  have shp: "map (\<lambda>k. sB ! k) q = s"
  proof (rule nth_equalityI)
    show "length (map (\<lambda>k. sB ! k) q) = length s" by (simp add: lq n_def)
  next
    fix i assume "i < length (map (\<lambda>k. sB ! k) q)"
    then have i: "i < n" by (simp add: lq)
    then show "map (\<lambda>k. sB ! k) q ! i = s ! i"
      using I(4) [OF i] inv n by (simp add: lq sB_nth)
  qed
  have prodB: "prod_list sB = prod_list s"
    unfolding sB_def using p n by (intro prod_list_perm_axes) (simp add: n_def)
  have len: "length (data A) = prod_list s" using wf by (simp add: wf_array_def s_def)
  have dat: "data (np_transpose q (np_transpose p A)) = data A"
  proof (rule nth_equalityI)
    show "length (data (np_transpose q (np_transpose p A))) = length (data A)"
      using shp by (simp add: np_transpose_def Let_def len flip: s_def sB_def)
  next
    fix j assume "j < length (data (np_transpose q (np_transpose p A)))"
    then have j: "j < prod_list s"
      using shp by (simp add: np_transpose_def Let_def flip: s_def sB_def)
    define J where "J = unravel_index s j"
    define IB where "IB = map (\<lambda>k. J ! index_of q k) [0..<n]"
    have vJ: "valid_index s J" unfolding J_def by (rule valid_unravel [OF j])
    have lJ: "length J = n" using vJ by (simp add: valid_index_def n_def)
    have vIB: "valid_index sB IB"
      unfolding valid_index_def
    proof (intro conjI allI impI)
      show "length IB = length sB" by (simp add: IB_def lsB)
    next
      fix i assume "i < length sB"
      then have i: "i < n" by (simp add: lsB)
      have "J ! index_of q i < s ! index_of q i"
        using vJ I(5) [OF i] by (simp add: valid_index_def n_def)
      then show "IB ! i < sB ! i" using i I(1) [OF i] by (simp add: IB_def sB_nth)
    qed
    have rB: "ravel_index sB IB < prod_list sB" by (rule ravel_bound [OF vIB])
    have bck: "map (\<lambda>k. IB ! index_of p k) [0..<n] = J"
    proof (rule nth_equalityI)
      show "length (map (\<lambda>k. IB ! index_of p k) [0..<n]) = length J" by (simp add: lJ)
    next
      fix i assume "i < length (map (\<lambda>k. IB ! index_of p k) [0..<n])"
      then have i: "i < n" by simp
      have "index_of q (index_of p i) = i"
        using I(2) [OF i] index_of_nth [of q i] q n i by (simp add: perm_axes_def)
      then show "map (\<lambda>k. IB ! index_of p k) [0..<n] ! i = J ! i"
        using i I(6) [OF i] by (simp add: IB_def)
    qed
    have "data (np_transpose q (np_transpose p A)) ! j
          = data (np_transpose p A) ! ravel_index sB IB"
      using j shp
      by (simp add: np_transpose_def Let_def lq J_def IB_def flip: s_def sB_def)
    also have "\<dots> = data A ! ravel_index s (map (\<lambda>k. unravel_index sB (ravel_index sB IB) ! index_of p k) [0..<n])"
      using rB by (simp add: np_transpose_def Let_def lp flip: s_def sB_def)
    also have "\<dots> = data A ! ravel_index s J"
      by (simp add: unravel_ravel [OF vIB] bck)
    also have "\<dots> = data A ! j"
      by (simp add: J_def ravel_unravel [OF j])
    finally show "data (np_transpose q (np_transpose p A)) ! j = data A ! j" .
  qed
  have "shape (np_transpose q (np_transpose p A)) = shape A"
    using shp by (simp flip: s_def sB_def)
  then show ?thesis using dat by (intro ndarray.equality) simp_all
qed

lemma filter_neq_upt:
  "k < n \<Longrightarrow> filter (\<lambda>i. i \<noteq> k) [0..<n] = [0..<k] @ [Suc k..<n]"
proof -
  assume k: "k < n"
  have "[0..<n] = [0..<k] @ [k] @ [Suc k..<n]"
    using k by (metis append_Cons append_Nil le_add1 le_add_same_cancel1 less_imp_add_positive
        upt_add_eq_append upt_conv_Cons)
  then have "filter (\<lambda>i. i \<noteq> k) [0..<n]
      = filter (\<lambda>i. i \<noteq> k) [0..<k] @ filter (\<lambda>i. i \<noteq> k) [Suc k..<n]"
    by simp
  moreover have "filter (\<lambda>i. i \<noteq> k) [0..<k] = [0..<k]" by (simp add: filter_id_conv)
  moreover have "filter (\<lambda>i. i \<noteq> k) [Suc k..<n] = [Suc k..<n]" by (simp add: filter_id_conv)
  ultimately show ?thesis by simp
qed

lemma perm_to_front: "k < n \<Longrightarrow> perm_axes (to_front n k) n"
  by (auto simp: perm_axes_def to_front_def)

lemma perm_from_front: "k < n \<Longrightarrow> perm_axes (from_front n k) n"
  by (auto simp: perm_axes_def from_front_def)

lemma to_from_front: "k < n \<Longrightarrow> i < n \<Longrightarrow> to_front n k ! (from_front n k ! i) = i"
  by (auto simp: to_front_def from_front_def nth_append nth_Cons split: nat.splits)

lemma moveaxis_to_front:
  assumes "py_index (ndim A) a = Some k"
  shows "moveaxis A a 0 = Inr (np_transpose (to_front (ndim A) k) A)"
proof -
  have k: "k < ndim A" using assms by (auto simp: py_index_def Let_def split: if_splits)
  then have "py_index (ndim A) 0 = Some 0" by (simp add: py_index_def)
  then show ?thesis
    using assms k by (simp add: moveaxis_def norm_axis_def bind_e_def to_front_def filter_neq_upt)
qed

lemma moveaxis_from_front:
  assumes "py_index (ndim A) a = Some k"
  shows "moveaxis A 0 a = Inr (np_transpose (from_front (ndim A) k) A)"
proof -
  have k: "k < ndim A" using assms by (auto simp: py_index_def Let_def split: if_splits)
  then have z: "py_index (ndim A) 0 = Some 0" by (simp add: py_index_def)
  have "filter (\<lambda>i. i \<noteq> 0) [0..<ndim A] = [Suc 0..<ndim A]"
    using filter_neq_upt [of 0 "ndim A"] k by simp
  moreover have "take k [Suc 0..<ndim A] = [Suc 0..<Suc k]" using k by (simp add: take_upt)
  ultimately show ?thesis
    using assms k z by (simp add: moveaxis_def norm_axis_def bind_e_def from_front_def)
qed

lemma shape_to_front:
  assumes "k < length s"
  shows "map (\<lambda>i. s ! i) (to_front (length s) k) = s ! k # (take k s @ drop (Suc k) s)"
proof -
  have "map (\<lambda>i. s ! i) [0..<k] = take k s"
    using assms by (intro map_upt_eqI) auto
  moreover have "map (\<lambda>i. s ! i) [Suc k..<length s] = drop (Suc k) s"
    by (intro map_upt_eqI) auto
  ultimately show ?thesis by (simp add: to_front_def)
qed

lemma data_np_transpose_length [simp]:
  "length (data (np_transpose p A)) = prod_list (map (\<lambda>k. shape A ! k) p)"
  by (simp add: np_transpose_def Let_def)

lemma fold_unfold_aux:
  assumes wf: "wf_array T" and n: "py_index (ndim T) n = Some k" and nz: "shape T ! k \<noteq> 0"
  shows "bind_e (unfold T n) (\<lambda>M. fold_tensor M n (shape T)) = Inr T"
proof -
  define s where "s = shape T"
  define B where "B = np_transpose (to_front (ndim T) k) T"
  have k: "k < length s" using n by (auto simp: py_index_def ndim_def s_def Let_def split: if_splits)
  have nd: "ndim T = length s" by (simp add: ndim_def s_def)
  have shB: "shape B = s ! k # (take k s @ drop (Suc k) s)"
    using shape_to_front [OF k] by (simp add: B_def nd s_def)
  have prodB: "prod_list (shape B) = prod_list s"
    using prod_list_perm_axes [of "to_front (length s) k" s] perm_to_front [OF k]
    by (simp add: B_def nd s_def)
  have lenB: "length (data B) = prod_list s"
    using prodB by (simp add: B_def)
  have "s ! k dvd prod_list (shape B)" by (simp add: shB)
  then have dv: "prod_list s mod (s ! k) = 0" using prodB by simp
  define M where "M = \<lparr>shape = [s ! k, prod_list s div (s ! k)], data = data B\<rparr>"
  have n': "py_index (length s) n = Some k" using n by (simp add: nd)
  have u: "unfold T n = Inr M"
    using n' nz dv lenB
    by (simp add: unfold_def moveaxis_to_front [OF n] bind_e_def py_get_def M_def reshape_rows_def
        flip: B_def s_def)
  have R: "\<lparr>shape = s ! k # (take k s @ drop (Suc k) s), data = data B\<rparr> = B"
    using shB by (intro ndarray.equality) simp_all
  have ndB: "ndim B = ndim T" by (simp add: ndim_def B_def perm_axes_def to_front_def s_def [symmetric]) (use k in simp)
  have "prod_list (s ! k # (take k s @ drop (Suc k) s)) = length (data M)"
    using prodB lenB by (simp only: shB [symmetric] M_def ndarray.simps)
  then have "np_reshape M (s ! k # (take k s @ drop (Suc k) s)) = Inr B"
    unfolding np_reshape_def using R by (simp add: M_def)
  then have "fold_tensor M n s = moveaxis B 0 n"
    using n' by (simp add: fold_tensor_def bind_e_def Let_def)
  also have "\<dots> = Inr (np_transpose (from_front (ndim T) k) B)"
    using moveaxis_from_front [of B n k] n ndB by simp
  also have "np_transpose (from_front (ndim T) k) B = T"
    unfolding B_def
    using k by (intro np_transpose_inverse wf perm_to_front perm_from_front)
      (simp_all add: nd to_from_front)
  finally show ?thesis using u by (simp add: bind_e_def s_def)
qed

section \<open>Folding an unfolded array\<close>

text \<open>
  C2 fails on an array whose axis \<open>n\<close> has length \<open>0\<close>: \<open>unfold\<close> reshapes to
  \<open>(A.shape[n], -1)\<close>, and NumPy refuses to infer a dimension next to a dimension \<open>0\<close>, so
  that \<open>unfold\<close> of the empty array of shape \<open>(0, 2)\<close> along axis \<open>0\<close> raises \<open>ValueError\<close>.
\<close>

theorem fold_unfold_empty_axis_counterexample:
  "wf_array \<lparr>shape = [0, 2], data = ([] :: int list)\<rparr>
   \<and> py_index (ndim \<lparr>shape = [0, 2], data = ([] :: int list)\<rparr>) 0 = Some 0
   \<and> fold_unfold \<lparr>shape = [0, 2], data = ([] :: int list)\<rparr> 0
       = Inl (ValueError ''cannot reshape array'')"
  by code_simp

text \<open>
  C2, amended. For every well-formed array \<open>T\<close> and every axis index \<open>n\<close> that is valid for
  \<open>T\<close> (negative indices count from the last axis; \<open>k\<close> is the axis meant), if axis \<open>k\<close>
  has non-zero length then \<open>unfold(T, n)\<close> returns and \<open>fold(unfold(T, n), n, T.shape)\<close>
  returns \<open>T\<close> itself.
\<close>

theorem fold_unfold_inverse:
  assumes "wf_array T" and "py_index (ndim T) n = Some k" and "shape T ! k \<noteq> 0"
  shows "fold_unfold T n = Inr T"
  unfolding fold_unfold_def using assms by (rule fold_unfold_aux)

theorem fold_unfold_inverse_witness:
  "wf_array \<lparr>shape = [2, 1, 3], data = [1, 2, 3, 4, 5, 6 :: int]\<rparr>
   \<and> py_index (ndim \<lparr>shape = [2, 1, 3], data = [1, 2, 3, 4, 5, 6 :: int]\<rparr>) (- 1) = Some 2
   \<and> shape \<lparr>shape = [2, 1, 3], data = [1, 2, 3, 4, 5, 6 :: int]\<rparr> ! 2 \<noteq> 0
   \<and> unfold \<lparr>shape = [2, 1, 3], data = [1, 2, 3, 4, 5, 6 :: int]\<rparr> (- 1)
       = Inr \<lparr>shape = [3, 2], data = [1, 4, 2, 5, 3, 6]\<rparr>
   \<and> fold_unfold \<lparr>shape = [2, 1, 3], data = [1, 2, 3, 4, 5, 6 :: int]\<rparr> (- 1)
       = Inr \<lparr>shape = [2, 1, 3], data = [1, 2, 3, 4, 5, 6]\<rparr>"
proof -
  let ?T = "\<lparr>shape = [2, 1, 3], data = [1, 2, 3, 4, 5, 6 :: int]\<rparr>"
  have a: "wf_array ?T" by (simp add: wf_array_def)
  have b: "py_index (ndim ?T) (- 1) = Some 2" by (simp add: py_index_def ndim_def)
  have c: "shape ?T ! 2 \<noteq> 0" by simp
  have d: "unfold ?T (- 1) = Inr \<lparr>shape = [3, 2], data = [1, 4, 2, 5, 3, 6]\<rparr>" by code_simp
  show ?thesis using a b c d fold_unfold_inverse [OF a b c] by simp
qed

section \<open>Matrices, broadcasting and Khatri-Rao products\<close>

lemma shape_mk_mat [simp]: "shape (mk_mat m n f) = [m, n]"
  by (simp add: mk_mat_def)

lemma length_data_mk_mat [simp]: "length (data (mk_mat m n f)) = m * n"
  by (simp add: mk_mat_def)

lemma is_matrix_mk_mat [simp]: "is_matrix (mk_mat m n f) m n"
  by (simp add: is_matrix_def)

lemma flat_index_less: "i < m \<Longrightarrow> j < n \<Longrightarrow> i * n + j < m * (n::nat)"
proof -
  assume i: "i < m" and j: "j < n"
  have "i * n + j < Suc i * n" using j by simp
  also have "\<dots> \<le> m * n" using i by (intro mult_le_mono1) simp
  finally show ?thesis .
qed

lemma mat_at_mk_mat [simp]: "i < m \<Longrightarrow> j < n \<Longrightarrow> mat_at (mk_mat m n f) i j = f i j"
  using flat_index_less [of i m j n] by (simp add: mat_at_def mk_mat_def)

lemma mk_mat_cong:
  "(\<And>i j. i < m \<Longrightarrow> j < n \<Longrightarrow> f i j = g i j) \<Longrightarrow> mk_mat m n f = mk_mat m n g"
proof -
  assume h: "\<And>i j. i < m \<Longrightarrow> j < n \<Longrightarrow> f i j = g i j"
  have "f (k div n) (k mod n) = g (k div n) (k mod n)" if "k < m * n" for k
  proof -
    have "0 < n" using that by (cases n) auto
    moreover have "k div n < m" using that by (simp add: less_mult_imp_div_less)
    ultimately show ?thesis using h by simp
  qed
  then show ?thesis by (simp add: mk_mat_def)
qed

lemma is_matrix_eq_mk_mat:
  "is_matrix A m n \<Longrightarrow> A = mk_mat m n (mat_at A)"
proof -
  assume a: "is_matrix A m n"
  have "data A = map (\<lambda>k. mat_at A (k div n) (k mod n)) [0..<m * n]"
    using a by (intro nth_equalityI) (auto simp: is_matrix_def mat_at_def)
  then show ?thesis using a by (intro ndarray.equality) (simp_all add: is_matrix_def mk_mat_def)
qed

lemma unravel_2d: "unravel_index [m, n] k = [k div n, k mod n]"
  by simp

lemma bc_source_2d:
  "bc_source [m, n] [i, j] = (if m = 1 then 0 else i) * n + (if n = 1 then 0 else j)"
  by (simp add: bc_source_def)

lemma np_binop_2d:
  assumes A: "shape A = [ma, na]" and B: "shape B = [mb, nb]"
    and m: "ma = mb \<or> ma = 1 \<or> mb = 1" and n: "na = nb \<or> na = 1 \<or> nb = 1"
  shows "np_binop f A B =
     Inr (mk_mat (if mb = 1 then ma else mb) (if nb = 1 then na else nb)
       (\<lambda>i j. f (data A ! ((if ma = 1 then 0 else i) * na + (if na = 1 then 0 else j)))
                (data B ! ((if mb = 1 then 0 else i) * nb + (if nb = 1 then 0 else j)))))"
proof -
  define mr where "mr = (if mb = 1 then ma else mb)"
  define nr where "nr = (if nb = 1 then na else nb)"
  have bd: "broadcast_dims [ma, na] [mb, nb] = Inr [mr, nr]"
    using m n by (auto simp: bind_e_def mr_def nr_def)
  have "np_binop f A B =
      Inr \<lparr>shape = [mr, nr],
           data = map (\<lambda>k. f (data A ! bc_source [ma, na] [k div nr, k mod nr])
                            (data B ! bc_source [mb, nb] [k div nr, k mod nr]))
                      [0..<mr * nr]\<rparr>"
    unfolding np_binop_def ndim_def A B Let_def
    by (simp add: pad_shape_def bd bind_e_def del: broadcast_dims.simps)
  then show ?thesis
    unfolding bc_source_2d mk_mat_def mr_def [symmetric] nr_def [symmetric] .
qed

lemma np_binop_same_shape:
  assumes "is_matrix A m n" and "is_matrix B m n"
  shows "np_binop f A B = Inr (mk_mat m n (\<lambda>i j. f (mat_at A i j) (mat_at B i j)))"
proof -
  have A: "shape A = [m, n]" and B: "shape B = [m, n]" using assms by (auto simp: is_matrix_def)
  have "np_binop f A B = Inr (mk_mat (if m = 1 then m else m) (if n = 1 then n else n)
       (\<lambda>i j. f (data A ! ((if m = 1 then 0 else i) * n + (if n = 1 then 0 else j)))
                (data B ! ((if m = 1 then 0 else i) * n + (if n = 1 then 0 else j)))))"
    by (rule np_binop_2d [OF A B]) simp_all
  also have "\<dots> = Inr (mk_mat m n (\<lambda>i j. f (mat_at A i j) (mat_at B i j)))"
    by (auto simp: mat_at_def A B intro!: mk_mat_cong)
  finally show ?thesis .
qed

lemma np_binop_row_left:
  assumes "is_matrix A 1 n" and "is_matrix B m n"
  shows "np_binop f A B = Inr (mk_mat m n (\<lambda>i j. f (mat_at A 0 j) (mat_at B i j)))"
proof -
  have A: "shape A = [1, n]" and B: "shape B = [m, n]" using assms by (auto simp: is_matrix_def)
  have "np_binop f A B = Inr (mk_mat (if m = 1 then 1 else m) (if n = 1 then n else n)
       (\<lambda>i j. f (data A ! ((if (1::nat) = 1 then 0 else i) * n + (if n = 1 then 0 else j)))
                (data B ! ((if m = 1 then 0 else i) * n + (if n = 1 then 0 else j)))))"
    by (rule np_binop_2d [OF A B]) simp_all
  also have "\<dots> = Inr (mk_mat m n (\<lambda>i j. f (mat_at A 0 j) (mat_at B i j)))"
    by (auto simp: mat_at_def A B intro!: mk_mat_cong)
  finally show ?thesis .
qed

lemma np_binop_row_right:
  assumes "is_matrix A m n" and "is_matrix B 1 n"
  shows "np_binop f A B = Inr (mk_mat m n (\<lambda>i j. f (mat_at A i j) (mat_at B 0 j)))"
proof -
  have A: "shape A = [m, n]" and B: "shape B = [1, n]" using assms by (auto simp: is_matrix_def)
  have "np_binop f A B = Inr (mk_mat (if (1::nat) = 1 then m else 1) (if n = 1 then n else n)
       (\<lambda>i j. f (data A ! ((if m = 1 then 0 else i) * n + (if n = 1 then 0 else j)))
                (data B ! ((if (1::nat) = 1 then 0 else i) * n + (if n = 1 then 0 else j)))))"
    by (rule np_binop_2d [OF A B]) simp_all
  also have "\<dots> = Inr (mk_mat m n (\<lambda>i j. f (mat_at A i j) (mat_at B 0 j)))"
    by (auto simp: mat_at_def A B intro!: mk_mat_cong)
  finally show ?thesis .
qed

lemma matmul_matrix:
  "is_matrix A m k \<Longrightarrow> is_matrix B k n \<Longrightarrow>
   matmul A B = Inr (mk_mat m n (\<lambda>i j. \<Sum>l\<leftarrow>[0..<k]. mat_at A i l * mat_at B l j))"
  by (simp add: matmul_def is_matrix_def)

lemma map_upt_shift: "map h [a..<a + n] = map (\<lambda>k. h (a + k)) [0..<n]"
  by (rule map_upt_eqI) auto

lemma concat_blocks:
  "concat (map (\<lambda>i. map (\<lambda>k. h (i * n + k)) [0..<n]) [0..<m]) = map h [0..<m * n]"
proof (induction m)
  case 0
  then show ?case by simp
next
  case (Suc m)
  have "[0..<Suc m * n] = [0..<m * n] @ [m * n..<m * n + n]"
    using upt_add_eq_append [of 0 "m * n" n] by (simp add: add.commute)
  then show ?case using Suc by (simp add: map_upt_shift [of _ "m * n" n])
qed

lemma sum_list_upt_mult:
  "(\<Sum>l\<leftarrow>[0..<m * n]. f l) = (\<Sum>i\<leftarrow>[0..<m]. \<Sum>k\<leftarrow>[0..<n]. (f (i * n + k) :: 'a::comm_monoid_add))"
proof (induction m)
  case 0
  then show ?case by simp
next
  case (Suc m)
  have "[0..<Suc m * n] = [0..<m * n] @ [m * n..<m * n + n]"
    using upt_add_eq_append [of 0 "m * n" n] by (simp add: add.commute)
  then show ?case using Suc by (simp add: map_upt_shift [of _ "m * n" n])
qed

lemma iter_rows_matrix:
  "is_matrix A m n \<Longrightarrow>
   iter_rows A = map (\<lambda>i. \<lparr>shape = [n], data = take n (drop (i * n) (data A))\<rparr>) [0..<m]"
  by (simp add: iter_rows_def is_matrix_def)

lemma krb_block:
  assumes A: "is_matrix A m n" and B: "is_matrix B p n" and i: "i < m"
  shows "np_binop (*) (newaxis_front \<lparr>shape = [n], data = take n (drop (i * n) (data A))\<rparr>) B
         = Inr (mk_mat p n (\<lambda>j r. mat_at A i r * mat_at B j r))"
proof -
  define row where "row = newaxis_front \<lparr>shape = [n], data = take n (drop (i * n) (data A))\<rparr>"
  have "Suc i * n \<le> m * n" using i by (intro mult_le_mono1) simp
  then have len: "i * n + n \<le> length (data A)" using A by (simp add: is_matrix_def)
  then have row: "is_matrix row 1 n" by (simp add: row_def newaxis_front_def is_matrix_def)
  have "i * n \<le> length (data A)" using len by simp
  then have at: "mat_at row 0 r = mat_at A i r" if "r < n" for r
    using that A by (simp add: row_def newaxis_front_def mat_at_def is_matrix_def)
  have "np_binop (*) row B = Inr (mk_mat p n (\<lambda>j r. mat_at row 0 r * mat_at B j r))"
    by (rule np_binop_row_left [OF row B])
  also have "mk_mat p n (\<lambda>j r. mat_at row 0 r * mat_at B j r)
           = mk_mat p n (\<lambda>j r. mat_at A i r * mat_at B j r)"
    by (rule mk_mat_cong) (simp add: at)
  finally show ?thesis by (simp add: row_def)
qed

lemma krb_blocks_matrix:
  assumes A: "is_matrix A m n" and B: "is_matrix B p n" and "\<forall>i\<in>set js. i < m"
  shows "krb_blocks B [p, n]
           (map (\<lambda>i. \<lparr>shape = [n], data = take n (drop (i * n) (data A))\<rparr>) js)
         = Inr (concat (map (\<lambda>i. data (mk_mat p n (\<lambda>j r. mat_at A i r * mat_at B j r))) js))"
  using assms(3)
proof (induction js)
  case Nil
  then show ?case by simp
next
  case (Cons i js)
  have i: "i < m" and js: "\<forall>i\<in>set js. i < m" using Cons.prems by auto
  note IH = Cons.IH [OF js]
  show ?case by (simp add: krb_block [OF A B i] IH bind_e_def)
qed

lemma khatri_rao_binary_matrix:
  assumes A: "is_matrix A m n" and B: "is_matrix B p n"
  shows "khatri_rao_binary A B
         = Inr (mk_mat (m * p) n (\<lambda>x r. mat_at A (x div p) r * mat_at B (x mod p) r))"
proof -
  define h where "h = (\<lambda>x. mat_at A (x div n div p) (x mod n) * mat_at B (x div n mod p) (x mod n))"
  have blk: "data (mk_mat p n (\<lambda>j r. mat_at A i r * mat_at B j r))
             = map (\<lambda>k. h (i * (p * n) + k)) [0..<p * n]" for i
    unfolding mk_mat_def ndarray.simps
  proof (rule map_cong [OF refl])
    fix k assume "k \<in> set [0..<p * n]"
    then have k: "k < p * n" by simp
    then have n: "0 < n" by (cases n) auto
    have kp: "k div n < p" using k by (simp add: less_mult_imp_div_less)
    have e: "i * (p * n) = i * p * n" by simp
    have d: "(i * (p * n) + k) div n = i * p + k div n"
      unfolding e using n by simp
    have m: "(i * (p * n) + k) mod n = k mod n"
      unfolding e by simp
    show "mat_at A i (k mod n) * mat_at B (k div n) (k mod n) = h (i * (p * n) + k)"
      using kp by (simp add: h_def d m)
  qed
  have "khatri_rao_binary A B
        = Inr \<lparr>shape = [m * p, n],
               data = concat (map (\<lambda>i. data (mk_mat p n (\<lambda>j r. mat_at A i r * mat_at B j r))) [0..<m])\<rparr>"
    using A B krb_blocks_matrix [OF A B, of "[0..<m]"]
    by (simp add: khatri_rao_binary_def iter_rows_matrix [OF A] is_matrix_def bind_e_def)
  also have "concat (map (\<lambda>i. data (mk_mat p n (\<lambda>j r. mat_at A i r * mat_at B j r))) [0..<m])
           = map h [0..<m * (p * n)]"
    by (simp only: blk concat_blocks)
  also have "\<lparr>shape = [m * p, n], data = map h [0..<m * (p * n)]\<rparr>
           = mk_mat (m * p) n (\<lambda>x r. mat_at A (x div p) r * mat_at B (x mod p) r)"
    unfolding mk_mat_def h_def by (simp only: mult.assoc)
  finally show ?thesis .
qed

lemma fold_e_snoc:
  "fold_e f acc (xs @ [x]) = bind_e (fold_e f acc xs) (\<lambda>a. f a x)"
  by (induction xs arbitrary: acc) (auto simp: bind_e_def split: sum.splits)

lemma np_zeros_matrix: "np_zeros [m, n] = mk_mat m n (\<lambda>i j. 0)"
  by (simp add: np_zeros_def mk_mat_def map_replicate_const)

lemma np_iadd_matrix:
  "np_iadd (mk_mat m n g) (mk_mat m n h) = Inr (mk_mat m n (\<lambda>i j. g i j + h i j))"
proof -
  have "np_binop (+) (mk_mat m n g) (mk_mat m n h)
        = Inr (mk_mat m n (\<lambda>i j. mat_at (mk_mat m n g) i j + mat_at (mk_mat m n h) i j))"
    by (rule np_binop_same_shape) simp_all
  also have "mk_mat m n (\<lambda>i j. mat_at (mk_mat m n g) i j + mat_at (mk_mat m n h) i j)
           = mk_mat m n (\<lambda>i j. g i j + h i j)"
    by (rule mk_mat_cong) simp
  finally show ?thesis by (simp add: np_iadd_def bind_e_def)
qed

lemma sum_list_cong_upt:
  "(\<And>k. k < n \<Longrightarrow> f k = g k) \<Longrightarrow> (\<Sum>k\<leftarrow>[0..<n]. f k) = (\<Sum>k\<leftarrow>[0..<n]. g k)"
  by (rule arg_cong [where f = sum_list]) simp

lemma np_getitem_3d:
  assumes wf: "wf_array T" and sh: "shape T = [a, b, c]" and i: "i < a"
  shows "\<exists>S. np_getitem T (int i) = Inr S \<and> is_matrix S b c
           \<and> (\<forall>j<b. \<forall>k<c. mat_at S j k = data T ! (i * (b * c) + j * c + k))"
proof -
  define S where "S = \<lparr>shape = [b, c], data = take (b * c) (drop (i * (b * c)) (data T))\<rparr>"
  have len: "length (data T) = a * (b * c)" using wf sh by (simp add: wf_array_def)
  have "Suc i * (b * c) \<le> a * (b * c)" using i by (intro mult_le_mono1) simp
  then have le: "i * (b * c) + b * c \<le> length (data T)" using len by simp
  have g: "np_getitem T (int i) = Inr S"
    using sh i by (simp add: np_getitem_def py_index_def S_def)
  have m: "is_matrix S b c" using le by (simp add: S_def is_matrix_def)
  have "mat_at S j k = data T ! (i * (b * c) + j * c + k)" if "j < b" "k < c" for j k
  proof -
    have "j * c + k < b * c" using that by (rule flat_index_less)
    moreover have "i * (b * c) \<le> length (data T)" using le by simp
    ultimately show ?thesis by (simp add: S_def mat_at_def add.assoc)
  qed
  then show ?thesis using g m by blast
qed

lemma np_slice_rows_block:
  assumes M: "is_matrix M (a * c) r" and i: "i < a"
  shows "\<exists>S. np_slice_rows M (i * c) ((i + 1) * c) = Inr S \<and> is_matrix S c r
           \<and> (\<forall>k<c. \<forall>j<r. mat_at S k j = mat_at M (i * c + k) j)"
proof -
  define S where "S = \<lparr>shape = [c, r], data = take (c * r) (drop (i * c * r) (data M))\<rparr>"
  have "Suc i * c \<le> a * c" using i by (intro mult_le_mono1) simp
  then have ic: "i * c + c \<le> a * c" by simp
  then have "(i * c + c) * r \<le> a * c * r" by (intro mult_le_mono1)
  then have le: "i * c * r + c * r \<le> length (data M)"
    using M by (simp add: is_matrix_def add_mult_distrib)
  have g: "np_slice_rows M (i * c) ((i + 1) * c) = Inr S"
    using M ic i by (simp add: np_slice_rows_def is_matrix_def S_def Let_def min_def max_def)
  have m: "is_matrix S c r" using le by (simp add: S_def is_matrix_def)
  have "mat_at S k j = mat_at M (i * c + k) j" if "k < c" "j < r" for k j
  proof -
    have "k * r + j < c * r" using that by (rule flat_index_less)
    moreover have "i * c * r \<le> length (data M)" using le by simp
    ultimately show ?thesis
      using M by (simp add: S_def mat_at_def is_matrix_def add_mult_distrib add.assoc)
  qed
  then show ?thesis using g m by blast
qed

lemma mttkrp_mid_with_krp_matrix:
  fixes T :: "('a::comm_semiring_0) ndarray"
  assumes wf: "wf_array T" and sh: "shape T = [a, b, c]" and M: "is_matrix M (a * c) r"
  shows "mttkrp_mid_with_krp T M
         = Inr (mk_mat b r (\<lambda>j q. \<Sum>i\<leftarrow>[0..<a]. \<Sum>k\<leftarrow>[0..<c].
                  data T ! (i * (b * c) + j * c + k) * mat_at M (i * c + k) q))"
proof -
  define step where "step = (\<lambda>product i.
      let idx = i mod a
      in bind_e (np_getitem T (int idx)) (\<lambda>t.
         bind_e (np_slice_rows M (i * c) ((i + 1) * c)) (\<lambda>k.
         bind_e (matmul t k) (\<lambda>m. np_iadd product m))))"
  define trm where "trm = (\<lambda>i j q. \<Sum>k\<leftarrow>[0..<c].
      data T ! (i * (b * c) + j * c + k) * mat_at M (i * c + k) q)"
  have step: "step (mk_mat b r g) i = Inr (mk_mat b r (\<lambda>j q. g j q + trm i j q))"
    if i: "i < a" for g i
  proof -
    obtain S where S: "np_getitem T (int i) = Inr S" "is_matrix S b c"
      "\<forall>j<b. \<forall>k<c. mat_at S j k = data T ! (i * (b * c) + j * c + k)"
      using np_getitem_3d [OF wf sh i] by blast
    obtain K where K: "np_slice_rows M (i * c) ((i + 1) * c) = Inr K" "is_matrix K c r"
      "\<forall>k<c. \<forall>j<r. mat_at K k j = mat_at M (i * c + k) j"
      using np_slice_rows_block [OF M i] by blast
    have mm: "matmul S K = Inr (mk_mat b r (\<lambda>j q. \<Sum>k\<leftarrow>[0..<c]. mat_at S j k * mat_at K k q))"
      by (rule matmul_matrix [OF S(2) K(2)])
    have "mk_mat b r (\<lambda>j q. \<Sum>k\<leftarrow>[0..<c]. mat_at S j k * mat_at K k q) = mk_mat b r (trm i)"
      unfolding trm_def
      by (rule mk_mat_cong, rule sum_list_cong_upt) (simp add: S(3) K(3))
    then have "step (mk_mat b r g) i = np_iadd (mk_mat b r g) (mk_mat b r (trm i))"
      using i K(1) by (simp add: step_def S(1) mm bind_e_def)
    then show ?thesis by (simp add: np_iadd_matrix)
  qed
  have loop: "fold_e step (np_zeros [b, r]) [0..<n]
              = Inr (mk_mat b r (\<lambda>j q. \<Sum>i\<leftarrow>[0..<n]. trm i j q))" if "n \<le> a" for n
    using that
  proof (induction n)
    case 0
    then show ?case by (simp add: np_zeros_matrix)
  next
    case (Suc n)
    then have n: "n < a" by simp
    show ?case using Suc n by (simp add: fold_e_snoc bind_e_def step [OF n])
  qed
  have "mttkrp_mid_with_krp T M = fold_e step (np_zeros [b, r]) [0..<a]"
    using sh M
    by (simp add: mttkrp_mid_with_krp_def py_get_def py_index_def bind_e_def is_matrix_def
        step_def)
  then show ?thesis using loop [of a] by (simp add: trm_def)
qed

lemma np_transpose_nth:
  assumes "valid_index (map (\<lambda>k. shape A ! k) p) J"
  shows "data (np_transpose p A) ! ravel_index (map (\<lambda>k. shape A ! k) p) J
         = data A ! ravel_index (shape A) (map (\<lambda>k. J ! index_of p k) [0..<length p])"
  using ravel_bound [OF assms] unravel_ravel [OF assms]
  by (simp add: np_transpose_def Let_def)

lemma index_of_upt: "k < n \<Longrightarrow> index_of [0..<n] k = k"
  using index_of_nth [of "[0..<n]" k] by simp

lemma np_transpose_id:
  assumes wf: "wf_array A"
  shows "np_transpose [0..<ndim A] A = A"
proof -
  define s where "s = shape A"
  have sh: "map (\<lambda>k. s ! k) [0..<length s] = s" by (rule map_nth)
  have "data (np_transpose [0..<length s] A) = data A"
  proof (rule nth_equalityI)
    show "length (data (np_transpose [0..<length s] A)) = length (data A)"
      using wf sh by (simp add: wf_array_def flip: s_def)
  next
    fix j assume "j < length (data (np_transpose [0..<length s] A))"
    then have j: "j < prod_list s" using sh by (simp flip: s_def)
    define J where "J = unravel_index s j"
    have v: "valid_index s J" unfolding J_def by (rule valid_unravel [OF j])
    then have lJ: "length J = length s" by (simp add: valid_index_def)
    have "map (\<lambda>k. J ! index_of [0..<length s] k) [0..<length s] = J"
      by (rule nth_equalityI) (simp_all add: lJ index_of_upt)
    moreover have "data (np_transpose [0..<length s] A) ! ravel_index s J
        = data A ! ravel_index s (map (\<lambda>k. J ! index_of [0..<length s] k) [0..<length s])"
      using np_transpose_nth [of A "[0..<length s]" J] v sh by (simp flip: s_def)
    ultimately show "data (np_transpose [0..<length s] A) ! j = data A ! j"
      by (simp add: J_def ravel_unravel [OF j])
  qed
  then show ?thesis
    using sh by (intro ndarray.equality) (simp_all add: ndim_def flip: s_def)
qed

lemma unfold_ok:
  assumes wf: "wf_array T" and n: "py_index (ndim T) n = Some k" and nz: "shape T ! k \<noteq> 0"
  shows "unfold T n = Inr \<lparr>shape = [shape T ! k, prod_list (shape T) div (shape T ! k)],
                           data = data (np_transpose (to_front (ndim T) k) T)\<rparr>"
    and "prod_list (shape T) mod (shape T ! k) = 0"
proof -
  define s where "s = shape T"
  define B where "B = np_transpose (to_front (ndim T) k) T"
  have k: "k < length s" using n by (auto simp: py_index_def ndim_def s_def Let_def split: if_splits)
  have nd: "ndim T = length s" by (simp add: ndim_def s_def)
  have shB: "shape B = s ! k # (take k s @ drop (Suc k) s)"
    using shape_to_front [OF k] by (simp add: B_def nd s_def)
  have prodB: "prod_list (shape B) = prod_list s"
    using prod_list_perm_axes [of "to_front (length s) k" s] perm_to_front [OF k]
    by (simp add: B_def nd s_def)
  have lenB: "length (data B) = prod_list s"
    using prodB by (simp add: B_def)
  have "s ! k dvd prod_list (shape B)" by (simp add: shB)
  then show dv: "prod_list (shape T) mod (shape T ! k) = 0" using prodB by (simp add: s_def)
  have n': "py_index (length s) n = Some k" using n by (simp add: nd)
  show "unfold T n = Inr \<lparr>shape = [shape T ! k, prod_list (shape T) div (shape T ! k)],
                           data = data (np_transpose (to_front (ndim T) k) T)\<rparr>"
    using n' nz dv lenB
    by (simp add: unfold_def moveaxis_to_front [OF n] bind_e_def py_get_def reshape_rows_def
        flip: B_def s_def)
qed

lemma upt_3: "[0..<3] = [0, 1, 2]"
  by (simp add: upt_rec numeral_3_eq_3)

lemma unfold_mode1_3d:
  assumes wf: "wf_array T" and sh: "shape T = [a, b, c]" and nz: "b \<noteq> 0"
  shows "\<exists>U. unfold T 1 = Inr U \<and> is_matrix U b (a * c)
           \<and> (\<forall>j<b. \<forall>i<a. \<forall>k<c. mat_at U j (i * c + k) = data T ! (i * (b * c) + j * c + k))"
proof -
  define U where "U = \<lparr>shape = [b, a * c], data = data (np_transpose [1, 0, 2] T)\<rparr>"
  have n: "py_index (ndim T) 1 = Some 1" using sh by (simp add: py_index_def ndim_def)
  have tf: "to_front (ndim T) 1 = [1, 0, 2]"
    using sh by (simp add: to_front_def ndim_def upt_rec numeral_3_eq_3)
  have "prod_list (shape T) div b = a * c" using sh nz by simp
  then have u: "unfold T 1 = Inr U"
    using unfold_ok(1) [OF wf n] sh nz tf by (simp add: U_def)
  have m: "is_matrix U b (a * c)" using sh by (simp add: U_def is_matrix_def mult.assoc)
  have "mat_at U j (i * c + k) = data T ! (i * (b * c) + j * c + k)"
    if "j < b" "i < a" "k < c" for i j k
  proof -
    have v: "valid_index (map (\<lambda>k. shape T ! k) [1, 0, 2]) [j, i, k]"
      using that sh by (simp add: valid_index_def nth_Cons split: nat.splits)
    show ?thesis
      using np_transpose_nth [OF v] sh
      by (simp add: U_def mat_at_def upt_3 add.assoc)
  qed
  then show ?thesis using u m by blast
qed

lemma unfold_is_matrix:
  assumes wf: "wf_array T" and n: "py_index (ndim T) n = Some k" and nz: "shape T ! k \<noteq> 0"
  shows "\<exists>U. unfold T n = Inr U
           \<and> is_matrix U (shape T ! k) (prod_list (shape T) div (shape T ! k))"
proof -
  have k: "k < length (shape T)"
    using n by (auto simp: py_index_def ndim_def Let_def split: if_splits)
  have "prod_list (map (\<lambda>i. shape T ! i) (to_front (ndim T) k)) = prod_list (shape T)"
    using perm_to_front [OF k] by (intro prod_list_perm_axes) (simp add: ndim_def)
  moreover have "shape T ! k * (prod_list (shape T) div (shape T ! k)) = prod_list (shape T)"
    using unfold_ok(2) [OF wf n nz] by (simp add: mod_eq_0_iff_dvd)
  ultimately show ?thesis
    using unfold_ok(1) [OF wf n nz] by (simp add: is_matrix_def)
qed

lemma khatri_rao_skip_3:
  "khatri_rao [A, B, C] (Some 0) = khatri_rao_binary B C"
  "khatri_rao [A, B, C] (Some 1) = khatri_rao_binary A C"
  "khatri_rao [A, B, C] (Some 2) = khatri_rao_binary A B"
  "khatri_rao [A, B, C] (Some (- 1)) = khatri_rao_binary A B"
  by (simp_all add: khatri_rao_def list_pop_def py_index_def bind_e_def split: sum.splits)

lemma mttkrp_mode1:
  fixes T :: "('a::comm_semiring_0) ndarray"
  assumes wf: "wf_array T" and sh: "shape T = [a, b, c]"
    and A: "is_matrix A a r" and B: "is_matrix B b r" and C: "is_matrix C c r"
    and nz: "b \<noteq> 0"
  shows "\<exists>M. mttkrp_unfolded T [A, B, C] 1 = Inr M
           \<and> matrix_khatri_rao_product T [A, B, C] 1 = Inr (Some M)"
proof -
  define KR where "KR = mk_mat (a * c) r (\<lambda>x q. mat_at A (x div c) q * mat_at C (x mod c) q)"
  have kr: "khatri_rao [A, B, C] (Some 1) = Inr KR"
    by (simp add: khatri_rao_skip_3 khatri_rao_binary_matrix [OF A C] KR_def)
  have KRm: "is_matrix KR (a * c) r" by (simp add: KR_def)
  obtain U where U: "unfold T 1 = Inr U" "is_matrix U b (a * c)"
    "\<forall>j<b. \<forall>i<a. \<forall>k<c. mat_at U j (i * c + k) = data T ! (i * (b * c) + j * c + k)"
    using unfold_mode1_3d [OF wf sh nz] by blast
  define M where "M = mk_mat b r (\<lambda>j q. \<Sum>l\<leftarrow>[0..<a * c]. mat_at U j l * mat_at KR l q)"
  have gen: "mttkrp_unfolded T [A, B, C] 1 = Inr M"
    by (simp add: mttkrp_unfolded_def U(1) kr bind_e_def matmul_matrix [OF U(2) KRm] M_def)
  have "mttkrp_mid_with_krp T KR
        = Inr (mk_mat b r (\<lambda>j q. \<Sum>i\<leftarrow>[0..<a]. \<Sum>k\<leftarrow>[0..<c].
                  data T ! (i * (b * c) + j * c + k) * mat_at KR (i * c + k) q))"
    by (rule mttkrp_mid_with_krp_matrix [OF wf sh KRm])
  also have "mk_mat b r (\<lambda>j q. \<Sum>i\<leftarrow>[0..<a]. \<Sum>k\<leftarrow>[0..<c].
                  data T ! (i * (b * c) + j * c + k) * mat_at KR (i * c + k) q) = M"
    unfolding M_def
  proof (rule mk_mat_cong)
    fix j q assume j: "j < b" and "q < r"
    have "(\<Sum>l\<leftarrow>[0..<a * c]. mat_at U j l * mat_at KR l q)
          = (\<Sum>i\<leftarrow>[0..<a]. \<Sum>k\<leftarrow>[0..<c]. mat_at U j (i * c + k) * mat_at KR (i * c + k) q)"
      by (rule sum_list_upt_mult)
    also have "\<dots> = (\<Sum>i\<leftarrow>[0..<a]. \<Sum>k\<leftarrow>[0..<c].
                  data T ! (i * (b * c) + j * c + k) * mat_at KR (i * c + k) q)"
      by (rule sum_list_cong_upt, rule sum_list_cong_upt) (simp add: U(3) j)
    finally show "(\<Sum>i\<leftarrow>[0..<a]. \<Sum>k\<leftarrow>[0..<c].
                  data T ! (i * (b * c) + j * c + k) * mat_at KR (i * c + k) q)
          = (\<Sum>l\<leftarrow>[0..<a * c]. mat_at U j l * mat_at KR l q)" by simp
  qed
  finally have "mttkrp_mid T [A, B, C] = Inr M"
    by (simp add: mttkrp_mid_def kr bind_e_def)
  then have "matrix_khatri_rao_product T [A, B, C] 1 = Inr (Some M)"
    using sh by (simp add: matrix_khatri_rao_product_def mttkrp3_def ndim_def bind_e_def)
  then show ?thesis using gen by blast
qed

lemma mttkrp_mode0:
  fixes T :: "('a::comm_semiring_0) ndarray"
  assumes wf: "wf_array T" and sh: "shape T = [a, b, c]"
    and A: "is_matrix A a r" and B: "is_matrix B b r" and C: "is_matrix C c r"
    and nz: "a \<noteq> 0"
  shows "\<exists>M. mttkrp_unfolded T [A, B, C] 0 = Inr M
           \<and> matrix_khatri_rao_product T [A, B, C] 0 = Inr (Some M)"
proof -
  have n: "py_index (ndim T) 0 = Some 0" using sh by (simp add: py_index_def ndim_def)
  have nz': "shape T ! 0 \<noteq> 0" using sh nz by simp
  obtain U where U: "unfold T 0 = Inr U" "is_matrix U a (b * c)"
    using unfold_is_matrix [OF wf n nz'] sh nz by auto
  have "to_front (ndim T) 0 = [0..<ndim T]"
    using sh by (simp add: to_front_def ndim_def upt_rec)
  then have "np_transpose (to_front (ndim T) 0) T = T" using np_transpose_id [OF wf] by simp
  then have "unfold T 0 = bind_e (py_get (shape T) 0) (\<lambda>d. reshape_rows T d)"
    using moveaxis_to_front [OF n] by (simp add: unfold_def bind_e_def)
  then have rs: "bind_e (py_get (shape T) 0) (\<lambda>d. reshape_rows T d) = Inr U" using U(1) by simp
  obtain KR where kr: "khatri_rao [A, B, C] (Some 0) = Inr KR" "is_matrix KR (b * c) r"
    by (simp add: khatri_rao_skip_3 khatri_rao_binary_matrix [OF B C])
  obtain M where M: "matmul U KR = Inr M" using matmul_matrix [OF U(2) kr(2)] by blast
  have "mttkrp_unfolded T [A, B, C] 0 = Inr M"
    by (simp add: mttkrp_unfolded_def U(1) kr(1) M bind_e_def)
  moreover have "matrix_khatri_rao_product T [A, B, C] 0 = Inr (Some M)"
    using sh rs kr(1) M
    by (auto simp: matrix_khatri_rao_product_def mttkrp3_def ndim_def bind_e_def split: sum.splits)
  ultimately show ?thesis by blast
qed

lemma mttkrp_mode2:
  fixes T :: "('a::comm_semiring_0) ndarray"
  assumes wf: "wf_array T" and sh: "shape T = [a, b, c]"
    and A: "is_matrix A a r" and B: "is_matrix B b r" and C: "is_matrix C c r"
    and nz: "c \<noteq> 0" and mode: "mode = 2 \<or> mode = - 1"
  shows "\<exists>M. mttkrp_unfolded T [A, B, C] mode = Inr M
           \<and> matrix_khatri_rao_product T [A, B, C] mode = Inr (Some M)"
proof -
  have n: "py_index (ndim T) mode = Some 2" and n1: "py_index (ndim T) (- 1) = Some 2"
    using sh mode by (auto simp: py_index_def ndim_def)
  have nz': "shape T ! 2 \<noteq> 0" using sh nz by simp
  have "prod_list (shape T) div c = a * b" using sh nz by simp
  then obtain U where U: "unfold T mode = Inr U" "is_matrix U c (a * b)"
    using unfold_is_matrix [OF wf n nz'] sh by auto
  have mv: "moveaxis T mode 0 = moveaxis T (- 1) 0"
    using moveaxis_to_front [OF n] moveaxis_to_front [OF n1] by simp
  have pg: "py_get (shape T) mode = py_get (shape T) (- 1)"
    using n n1 by (simp add: py_get_def ndim_def)
  have rs: "bind_e (moveaxis T (- 1) 0) (\<lambda>B. bind_e (py_get (shape T) (- 1)) (\<lambda>d. reshape_rows B d))
            = Inr U"
    using U(1) by (simp add: unfold_def mv pg)
  obtain KR where kr: "khatri_rao [A, B, C] (Some mode) = Inr KR" "is_matrix KR (a * b) r"
    using mode by (auto simp: khatri_rao_skip_3 khatri_rao_binary_matrix [OF A B])
  obtain M where M: "matmul U KR = Inr M" using matmul_matrix [OF U(2) kr(2)] by blast
  have "mttkrp_unfolded T [A, B, C] mode = Inr M"
    by (simp add: mttkrp_unfolded_def U(1) kr(1) M bind_e_def)
  moreover have "matrix_khatri_rao_product T [A, B, C] mode = Inr (Some M)"
    using sh rs kr(1) M mode
    by (auto simp: matrix_khatri_rao_product_def mttkrp3_def ndim_def bind_e_def split: sum.splits)
  ultimately show ?thesis by blast
qed

lemma mttkrp_specialised_agrees_aux:
  fixes T :: "('a::comm_semiring_0) ndarray"
  assumes "wf_array T" and "shape T = [a, b, c]"
    and "is_matrix A a r" and "is_matrix B b r" and "is_matrix C c r"
    and "mode \<in> {0, 1, 2, - 1}" and "py_index 3 mode = Some k" and "[a, b, c] ! k \<noteq> 0"
  shows "\<exists>M. mttkrp_unfolded T [A, B, C] mode = Inr M
           \<and> matrix_khatri_rao_product T [A, B, C] mode = Inr (Some M)"
proof -
  consider "mode = 0" "k = 0" | "mode = 1" "k = 1" | "mode = 2 \<or> mode = - 1" "k = 2"
    using assms(6,7) by (auto simp: py_index_def)
  then show ?thesis
  proof cases
    case 1
    then show ?thesis using mttkrp_mode0 [OF assms(1-5)] assms(8) by simp
  next
    case 2
    then show ?thesis using mttkrp_mode1 [OF assms(1-5)] assms(8) by simp
  next
    case 3
    then show ?thesis using mttkrp_mode2 [OF assms(1-5)] assms(8) by simp
  qed
qed

section \<open>The specialised matricised-tensor products\<close>

text \<open>
  C1 fails on a tensor whose middle axis is empty: for \<open>X\<close> of shape \<open>(1, 0, 1)\<close> the
  block-accumulation path of mode \<open>1\<close> returns the empty matrix of shape \<open>(0, 1)\<close>, where
  \<open>unfold(X, 1)\<close> of the generic formula raises \<open>ValueError\<close>.
\<close>

theorem mttkrp_mid_empty_axis_counterexample:
  "wf_array \<lparr>shape = [1, 0, 1], data = ([] :: int list)\<rparr>
   \<and> is_matrix \<lparr>shape = [1, 1], data = [1 :: int]\<rparr> 1 1
   \<and> is_matrix \<lparr>shape = [0, 1], data = ([] :: int list)\<rparr> 0 1
   \<and> matrix_khatri_rao_product \<lparr>shape = [1, 0, 1], data = ([] :: int list)\<rparr>
        [\<lparr>shape = [1, 1], data = [1]\<rparr>, \<lparr>shape = [0, 1], data = []\<rparr>,
         \<lparr>shape = [1, 1], data = [1]\<rparr>] 1
       = Inr (Some \<lparr>shape = [0, 1], data = []\<rparr>)
   \<and> mttkrp_unfolded \<lparr>shape = [1, 0, 1], data = ([] :: int list)\<rparr>
        [\<lparr>shape = [1, 1], data = [1]\<rparr>, \<lparr>shape = [0, 1], data = []\<rparr>,
         \<lparr>shape = [1, 1], data = [1]\<rparr>] 1
       = Inl (ValueError ''cannot reshape array'')"
  by code_simp

text \<open>
  C1, amended. Let \<open>X\<close> be a well-formed 3-mode tensor of shape \<open>(a, b, c)\<close> with entries in
  a commutative semiring (exact arithmetic), let the three factor matrices have \<open>a\<close>, \<open>b\<close>
  and \<open>c\<close> rows and a shared column count \<open>r\<close>, and let \<open>mode\<close> be \<open>0\<close>, \<open>1\<close>, \<open>2\<close> or \<open>-1\<close>,
  naming an axis \<open>k\<close> of non-zero length. Then the generic formula
  \<open>unfold(X, mode) @ khatri_rao(*factors, skip=mode)\<close> returns a matrix \<open>M\<close>, and
  \<open>matrix_khatri_rao_product(X, factors, mode)\<close> returns that same \<open>M\<close>; for mode \<open>1\<close> this
  is the block-accumulation loop of \<open>_mttkrp_mid_with_krp\<close> with its index
  \<open>idx = i % shape[0]\<close>.
\<close>

theorem mttkrp_specialised_agrees:
  fixes T :: "('a::comm_semiring_0) ndarray"
  assumes "wf_array T" and "shape T = [a, b, c]"
    and "is_matrix A a r" and "is_matrix B b r" and "is_matrix C c r"
    and "mode \<in> {0, 1, 2, - 1}" and "py_index 3 mode = Some k" and "[a, b, c] ! k \<noteq> 0"
  shows "\<exists>M. mttkrp_unfolded T [A, B, C] mode = Inr M
           \<and> matrix_khatri_rao_product T [A, B, C] mode = Inr (Some M)"
  using assms by (rule mttkrp_specialised_agrees_aux)

theorem mttkrp_specialised_agrees_witness:
  "wf_array \<lparr>shape = [2, 2, 3], data = [1, 2, 3, 4, 5, 6, 7, 8, 9, 10, 11, 12 :: int]\<rparr>
   \<and> is_matrix \<lparr>shape = [2, 2], data = [1, 2, 3, 4 :: int]\<rparr> 2 2
   \<and> is_matrix \<lparr>shape = [2, 2], data = [1, 0, 2, 1 :: int]\<rparr> 2 2
   \<and> is_matrix \<lparr>shape = [3, 2], data = [1, 1, 0, 2, 3, 1 :: int]\<rparr> 3 2
   \<and> py_index 3 1 = Some 1
   \<and> matrix_khatri_rao_product
        \<lparr>shape = [2, 2, 3], data = [1, 2, 3, 4, 5, 6, 7, 8, 9, 10, 11, 12 :: int]\<rparr>
        [\<lparr>shape = [2, 2], data = [1, 2, 3, 4]\<rparr>, \<lparr>shape = [2, 2], data = [1, 0, 2, 1]\<rparr>,
         \<lparr>shape = [3, 2], data = [1, 1, 0, 2, 3, 1]\<rparr>] 1
       = Inr (Some \<lparr>shape = [2, 2], data = [112, 144, 160, 216]\<rparr>)
   \<and> (\<exists>M. mttkrp_unfolded
        \<lparr>shape = [2, 2, 3], data = [1, 2, 3, 4, 5, 6, 7, 8, 9, 10, 11, 12 :: int]\<rparr>
        [\<lparr>shape = [2, 2], data = [1, 2, 3, 4]\<rparr>, \<lparr>shape = [2, 2], data = [1, 0, 2, 1]\<rparr>,
         \<lparr>shape = [3, 2], data = [1, 1, 0, 2, 3, 1]\<rparr>] 1 = Inr M
      \<and> matrix_khatri_rao_product
        \<lparr>shape = [2, 2, 3], data = [1, 2, 3, 4, 5, 6, 7, 8, 9, 10, 11, 12 :: int]\<rparr>
        [\<lparr>shape = [2, 2], data = [1, 2, 3, 4]\<rparr>, \<lparr>shape = [2, 2], data = [1, 0, 2, 1]\<rparr>,
         \<lparr>shape = [3, 2], data = [1, 1, 0, 2, 3, 1]\<rparr>] 1 = Inr (Some M))"
proof -
  let ?T = "\<lparr>shape = [2, 2, 3], data = [1, 2, 3, 4, 5, 6, 7, 8, 9, 10, 11, 12 :: int]\<rparr>"
  let ?A = "\<lparr>shape = [2, 2], data = [1, 2, 3, 4 :: int]\<rparr>"
  let ?B = "\<lparr>shape = [2, 2], data = [1, 0, 2, 1 :: int]\<rparr>"
  let ?C = "\<lparr>shape = [3, 2], data = [1, 1, 0, 2, 3, 1 :: int]\<rparr>"
  have h1: "wf_array ?T" by (simp add: wf_array_def)
  have h2: "shape ?T = [2, 2, 3]" by simp
  have h3: "is_matrix ?A 2 2" and h4: "is_matrix ?B 2 2" and h5: "is_matrix ?C 3 2"
    by (simp_all add: is_matrix_def)
  have h6: "(1::int) \<in> {0, 1, 2, - 1}" by simp
  have h7: "py_index 3 1 = Some 1" by (simp add: py_index_def)
  have h8: "[2, 2, 3] ! 1 \<noteq> (0::nat)" by simp
  have v: "matrix_khatri_rao_product ?T [?A, ?B, ?C] 1
           = Inr (Some \<lparr>shape = [2, 2], data = [112, 144, 160, 216]\<rparr>)"
    by code_simp
  show ?thesis
    using mttkrp_specialised_agrees [OF h1 h2 h3 h4 h5 h6 h7 h8] h1 h3 h4 h5 h7 v by simp
qed

section \<open>Normalising a Kruskal tensor\<close>

lemma linalg_norm_axis0_matrix:
  assumes "is_matrix F m n"
  shows "linalg_norm_axis0 F = Inr (mk_vec n (colnorm F))"
  using assms
  by (simp add: linalg_norm_axis0_def is_matrix_def mk_vec_def colnorm_def mat_at_def)

lemma np_binop_vec:
  "np_binop f (mk_vec n g) (mk_vec n h) = Inr (mk_vec n (\<lambda>k. f (g k) (h k)))"
proof -
  have bd: "broadcast_dims [n] [n] = Inr [n]" by (simp add: bind_e_def)
  have "bc_source [n] [k] = k" if "k < n" for k using that by (simp add: bc_source_def)
  then have "map (\<lambda>k. f (map g [0..<n] ! bc_source [n] [k]) (map h [0..<n] ! bc_source [n] [k])) [0..<n]
        = map (\<lambda>k. f (g k) (h k)) [0..<n]"
    by simp
  then show ?thesis
    by (simp add: np_binop_def ndim_def pad_shape_def mk_vec_def bd bind_e_def Let_def
        del: broadcast_dims.simps)
qed

lemma np_imul_vec:
  "np_imul (mk_vec n g) (mk_vec n h) = Inr (mk_vec n (\<lambda>k. g k * h k))"
  by (simp add: np_imul_def np_binop_vec bind_e_def) (simp add: mk_vec_def)

lemma divide_by_norms:
  assumes F: "is_matrix F m n"
  shows "np_binop (/) F (newaxis_front (mk_vec n (colnorm F))) = Inr (unit_columns F)"
proof -
  define N where "N = newaxis_front (mk_vec n (colnorm F))"
  have N: "is_matrix N 1 n" by (simp add: N_def newaxis_front_def mk_vec_def is_matrix_def)
  have at: "mat_at N 0 j = colnorm F j" if "j < n" for j
    using that by (simp add: N_def newaxis_front_def mk_vec_def mat_at_def)
  have "np_binop (/) F N = Inr (mk_mat m n (\<lambda>i j. mat_at F i j / mat_at N 0 j))"
    by (rule np_binop_row_right [OF F N])
  also have "mk_mat m n (\<lambda>i j. mat_at F i j / mat_at N 0 j) = unit_columns F"
    unfolding unit_columns_def using F
    by (auto simp: is_matrix_def at intro!: mk_mat_cong)
  finally show ?thesis by (simp add: N_def)
qed

lemma normalize_loop_matrices:
  assumes "\<forall>F\<in>set fms. factor_ok n F" and "\<forall>F\<in>set fms. \<forall>r<n. colnorm F r \<noteq> 0"
  shows "normalize_loop fms (mk_vec n w)
         = Inr (map unit_columns fms, mk_vec n (\<lambda>r. w r * (\<Prod>F\<leftarrow>fms. colnorm F r)))"
  using assms
proof (induction fms arbitrary: w)
  case Nil
  then show ?case by simp
next
  case (Cons F fms)
  have F: "is_matrix F (shape F ! 0) n" using Cons.prems by (simp add: factor_ok_def)
  have rest: "\<forall>F\<in>set fms. factor_ok n F" "\<forall>F\<in>set fms. \<forall>r<n. colnorm F r \<noteq> 0"
    using Cons.prems by simp_all
  have "0 \<notin> set (data (mk_vec n (colnorm F)))"
    using Cons.prems(2) by (auto simp: mk_vec_def)
  then show ?case
    by (simp add: linalg_norm_axis0_matrix [OF F] divide_by_norms [OF F] np_imul_vec
        Cons.IH [OF rest] bind_e_def mult.assoc)
qed

lemma factor_okD:
  assumes "factor_ok n F"
  obtains m where "shape F = [m, n]" and "length (data F) = m * n" and "is_matrix F m n"
proof -
  have "shape F = [shape F ! 0, n]" and "length (data F) = shape F ! 0 * n"
    and "is_matrix F (shape F ! 0) n"
    using assms by (simp_all add: factor_ok_def is_matrix_def)
  then show ?thesis using that by blast
qed

lemma factor_ok_unit_columns: "factor_ok n F \<Longrightarrow> factor_ok n (unit_columns F)"
  by (erule factor_okD) (simp add: factor_ok_def unit_columns_def is_matrix_def)

lemma shape_unit_columns: "factor_ok n F \<Longrightarrow> shape (unit_columns F) = shape F"
  by (erule factor_okD) (simp add: unit_columns_def)

lemma colnorm_unit_columns:
  assumes F: "factor_ok n F" and r: "r < n" and nz: "colnorm F r \<noteq> 0"
  shows "colnorm (unit_columns F) r = 1"
proof -
  obtain m where sh: "shape F = [m, n]" using F by (rule factor_okD)
  define c where "c = colnorm F r"
  define S where "S = (\<Sum>i\<leftarrow>[0..<m]. (mat_at F i r)\<^sup>2)"
  have "0 \<le> S" unfolding S_def by (rule sum_list_nonneg) auto
  then have cS: "c\<^sup>2 = S" using sh by (simp add: c_def colnorm_def S_def)
  have "(\<Sum>i\<leftarrow>[0..<m]. (mat_at (unit_columns F) i r)\<^sup>2)
        = (\<Sum>i\<leftarrow>[0..<m]. (mat_at F i r)\<^sup>2 * (inverse c)\<^sup>2)"
    using r sh
    by (intro sum_list_cong_upt)
      (simp add: unit_columns_def c_def divide_inverse power_mult_distrib)
  also have "\<dots> = S * (inverse c)\<^sup>2"
    by (simp add: sum_list_mult_const S_def)
  also have "\<dots> = 1" using nz by (simp add: cS [symmetric] c_def power_inverse)
  finally show ?thesis
    using sh by (simp add: colnorm_def shape_unit_columns [OF F])
qed

lemma fold_krb_matrices:
  assumes "is_matrix P p n" and "\<forall>F\<in>set fs. factor_ok n F"
  shows "\<exists>K. fold_e khatri_rao_binary P fs = Inr K
           \<and> is_matrix K (p * prod_list (map (\<lambda>F. shape F ! 0) fs)) n"
  using assms
proof (induction fs arbitrary: P p)
  case Nil
  then show ?case by simp
next
  case (Cons F fs)
  obtain d where F: "is_matrix F d n" "shape F = [d, n]"
    using Cons.prems(2) factor_okD [of n F] by auto
  define K1 where "K1 = mk_mat (p * d) n (\<lambda>x r. mat_at P (x div d) r * mat_at F (x mod d) r)"
  have k1: "khatri_rao_binary P F = Inr K1"
    using khatri_rao_binary_matrix [OF Cons.prems(1) F(1)] by (simp add: K1_def)
  have "is_matrix K1 (p * d) n" by (simp add: K1_def)
  then obtain K where "fold_e khatri_rao_binary K1 fs = Inr K"
    "is_matrix K (p * d * prod_list (map (\<lambda>F. shape F ! 0) fs)) n"
    using Cons.IH [of K1 "p * d"] Cons.prems(2) by auto
  then show ?case using k1 F(2) by (simp add: bind_e_def mult.assoc)
qed

lemma fold_krb_scaled:
  fixes g :: "real ndarray \<Rightarrow> nat \<Rightarrow> real"
  assumes "is_matrix P p n" and "\<forall>F\<in>set fs. factor_ok n F"
    and "fold_e khatri_rao_binary P fs = Inr K"
  shows "fold_e khatri_rao_binary (mk_mat p n (\<lambda>i r. mat_at P i r * sP r))
           (map (\<lambda>F. mk_mat (shape F ! 0) n (\<lambda>i r. mat_at F i r * g F r)) fs)
         = Inr (mk_mat (p * prod_list (map (\<lambda>F. shape F ! 0) fs)) n
                 (\<lambda>x r. mat_at K x r * (sP r * (\<Prod>F\<leftarrow>fs. g F r))))"
  using assms
proof (induction fs arbitrary: P p sP)
  case Nil
  then have "P = K" by simp
  then show ?case by simp
next
  case (Cons F fs)
  obtain d where F: "is_matrix F d n" "shape F = [d, n]"
    using Cons.prems(2) factor_okD [of n F] by auto
  define K1 where "K1 = mk_mat (p * d) n (\<lambda>x r. mat_at P (x div d) r * mat_at F (x mod d) r)"
  have k1: "khatri_rao_binary P F = Inr K1"
    using khatri_rao_binary_matrix [OF Cons.prems(1) F(1)] by (simp add: K1_def)
  have K1m: "is_matrix K1 (p * d) n" by (simp add: K1_def)
  have K1K: "fold_e khatri_rao_binary K1 fs = Inr K"
    using Cons.prems(3) k1 by (simp add: bind_e_def)
  define P' where "P' = mk_mat p n (\<lambda>i r. mat_at P i r * sP r)"
  define F' where "F' = mk_mat d n (\<lambda>i r. mat_at F i r * g F r)"
  have "khatri_rao_binary P' F'
        = Inr (mk_mat (p * d) n (\<lambda>x r. mat_at P' (x div d) r * mat_at F' (x mod d) r))"
    by (rule khatri_rao_binary_matrix) (simp_all add: P'_def F'_def)
  also have "mk_mat (p * d) n (\<lambda>x r. mat_at P' (x div d) r * mat_at F' (x mod d) r)
           = mk_mat (p * d) n (\<lambda>x r. mat_at K1 x r * (sP r * g F r))"
  proof (rule mk_mat_cong)
    fix x r assume x: "x < p * d" and r: "r < n"
    then have d: "0 < d" by (cases d) auto
    have xd: "x div d < p" using x by (simp add: less_mult_imp_div_less)
    have xm: "x mod d < d" using d by simp
    show "mat_at P' (x div d) r * mat_at F' (x mod d) r = mat_at K1 x r * (sP r * g F r)"
      using x r xd xm by (simp add: P'_def F'_def K1_def)
  qed
  finally have step: "khatri_rao_binary P' F'
        = Inr (mk_mat (p * d) n (\<lambda>x r. mat_at K1 x r * (sP r * g F r)))" .
  have "fold_e khatri_rao_binary (mk_mat (p * d) n (\<lambda>x r. mat_at K1 x r * (sP r * g F r)))
           (map (\<lambda>F. mk_mat (shape F ! 0) n (\<lambda>i r. mat_at F i r * g F r)) fs)
         = Inr (mk_mat (p * d * prod_list (map (\<lambda>F. shape F ! 0) fs)) n
                 (\<lambda>x r. mat_at K x r * (sP r * g F r * (\<Prod>F\<leftarrow>fs. g F r))))"
    using Cons.IH [OF K1m _ K1K, of "\<lambda>r. sP r * g F r"] Cons.prems(2) by simp
  then show ?case
    using step F(2) by (simp add: bind_e_def mult.assoc flip: P'_def F'_def)
qed

lemma np_T_matrix:
  assumes K: "is_matrix K m n"
  shows "np_T K = mk_mat n m (\<lambda>i j. mat_at K j i)"
proof -
  have sh: "shape K = [m, n]" using K by (simp add: is_matrix_def)
  have rv: "rev [0..<ndim K] = [1, 0]" using sh by (simp add: ndim_def upt_rec numeral_2_eq_2)
  have "data (np_transpose [1, 0] K) = map (\<lambda>k. mat_at K (k mod m) (k div m)) [0..<n * m]"
  proof (rule nth_equalityI)
    show "length (data (np_transpose [1, 0] K)) = length (map (\<lambda>k. mat_at K (k mod m) (k div m)) [0..<n * m])"
      using sh by simp
  next
    fix k assume "k < length (data (np_transpose [1, 0] K))"
    then have k: "k < n * m" using sh by simp
    then have m: "0 < m" by (cases m) auto
    have kd: "k div m < n" using k by (simp add: less_mult_imp_div_less)
    have v: "valid_index (map (\<lambda>i. shape K ! i) [1, 0]) [k div m, k mod m]"
      using sh kd m by (simp add: valid_index_def nth_Cons split: nat.splits)
    have "data (np_transpose [1, 0] K) ! (k div m * m + k mod m)
          = data K ! (k mod m * n + k div m)"
      using np_transpose_nth [OF v] sh by (simp add: upt_rec numeral_2_eq_2)
    then show "data (np_transpose [1, 0] K) ! k = map (\<lambda>k. mat_at K (k mod m) (k div m)) [0..<n * m] ! k"
      using k sh by (simp add: mat_at_def)
  qed
  then show ?thesis
    using sh by (intro ndarray.equality) (simp_all add: np_T_def rv mk_mat_def)
qed

lemma shapes_fold:
  assumes "\<forall>F\<in>set fms. factor_ok n F"
  shows "fold_e (\<lambda>acc f. bind_e (py_get (shape f) 0) (\<lambda>d. Inr (acc @ [d]))) acc fms
         = Inr (acc @ map (\<lambda>F. shape F ! 0) fms)"
  using assms
proof (induction fms arbitrary: acc)
  case Nil
  then show ?case by simp
next
  case (Cons F fms)
  obtain d where "shape F = [d, n]" using Cons.prems factor_okD [of n F] by auto
  then show ?case using Cons by (simp add: py_get_def py_index_def bind_e_def)
qed

lemma fold_tensor_front:
  assumes "is_matrix M d (prod_list ds)"
  shows "\<exists>t. fold_tensor M 0 (d # ds) = Inr t"
  using assms
  by (simp add: fold_tensor_def py_index_def np_reshape_def is_matrix_def bind_e_def moveaxis_def
      norm_axis_def ndim_def Let_def)

lemma construct_tensor_matrices:
  fixes w :: "nat \<Rightarrow> 'a::comm_semiring_0"
  assumes fms: "factor_matrices kt = F0 # F1 # fs"
    and ok: "\<forall>F\<in>set (factor_matrices kt). factor_ok n F"
    and w: "weights kt = mk_vec n w"
    and K: "fold_e khatri_rao_binary F1 fs = Inr K"
  shows "tensor_of kt
         = fold_tensor
             (mk_mat (shape F0 ! 0) (prod_list (map (\<lambda>F. shape F ! 0) (F1 # fs))) 
                (\<lambda>x y. \<Sum>r\<leftarrow>[0..<n]. w r * mat_at F0 x r * mat_at K y r))
             0 (map (\<lambda>F. shape F ! 0) (F0 # F1 # fs))"
    and "\<exists>t. tensor_of kt = Inr t"
proof -
  define q where "q = prod_list (map (\<lambda>F. shape F ! 0) (F1 # fs))"
  obtain d0 where F0: "is_matrix F0 d0 n" "shape F0 = [d0, n]"
    using ok fms factor_okD [of n F0] by auto
  obtain d1 where F1: "is_matrix F1 d1 n" "shape F1 = [d1, n]"
    using ok fms factor_okD [of n F1] by auto
  have okfs: "\<forall>F\<in>set fs. factor_ok n F" using ok fms by simp
  have Km: "is_matrix K (d1 * prod_list (map (\<lambda>F. shape F ! 0) fs)) n"
    using fold_krb_matrices [OF F1(1) okfs] K by auto
  then have Kq: "is_matrix K q n" using F1(2) by (simp add: q_def)
  define W where "W = newaxis_front (mk_vec n w)"
  have W: "is_matrix W 1 n" by (simp add: W_def newaxis_front_def mk_vec_def is_matrix_def)
  have Wat: "mat_at W 0 r = w r" if "r < n" for r
    using that by (simp add: W_def newaxis_front_def mk_vec_def mat_at_def)
  define WF where "WF = mk_mat d0 n (\<lambda>i r. w r * mat_at F0 i r)"
  have "np_binop (*) W F0 = Inr (mk_mat d0 n (\<lambda>i r. mat_at W 0 r * mat_at F0 i r))"
    by (rule np_binop_row_left [OF W F0(1)])
  also have "mk_mat d0 n (\<lambda>i r. mat_at W 0 r * mat_at F0 i r) = WF"
    unfolding WF_def by (rule mk_mat_cong) (simp add: Wat)
  finally have wf: "np_binop (*) W F0 = Inr WF" .
  define M where "M = mk_mat d0 q (\<lambda>x y. \<Sum>r\<leftarrow>[0..<n]. w r * mat_at F0 x r * mat_at K y r)"
  have "matmul WF (np_T K)
        = Inr (mk_mat d0 q (\<lambda>x y. \<Sum>r\<leftarrow>[0..<n]. mat_at WF x r * mat_at (np_T K) r y))"
    by (rule matmul_matrix) (simp_all add: WF_def np_T_matrix [OF Kq])
  also have "mk_mat d0 q (\<lambda>x y. \<Sum>r\<leftarrow>[0..<n]. mat_at WF x r * mat_at (np_T K) r y) = M"
    unfolding M_def
    by (rule mk_mat_cong, rule sum_list_cong_upt) (simp add: WF_def np_T_matrix [OF Kq])
  finally have mm: "matmul WF (np_T K) = Inr M" .
  have kr: "khatri_rao (F1 # fs) None = Inr K" using K by (simp add: khatri_rao_def bind_e_def)
  have shp: "fold_e (\<lambda>acc f. bind_e (py_get (shape f) 0) (\<lambda>d. Inr (acc @ [d]))) [] (F0 # F1 # fs)
             = Inr (map (\<lambda>F. shape F ! 0) (F0 # F1 # fs))"
    using shapes_fold [of "F0 # F1 # fs" n "[]"] ok fms by simp
  have ct: "construct_tensor kt
        = bind_e (fold_tensor M 0 (map (\<lambda>F. shape F ! 0) (F0 # F1 # fs)))
            (\<lambda>t. Inr (t, kt\<lparr>weights := W\<rparr>))"
    unfolding construct_tensor_def
    using shp wf kr mm
    by (simp add: fms w mk_vec_def [of n w, THEN arg_cong, of shape] Let_def bind_e_def
        py_get_def py_index_def W_def)
  then show "tensor_of kt
         = fold_tensor
             (mk_mat (shape F0 ! 0) (prod_list (map (\<lambda>F. shape F ! 0) (F1 # fs))) 
                (\<lambda>x y. \<Sum>r\<leftarrow>[0..<n]. w r * mat_at F0 x r * mat_at K y r))
             0 (map (\<lambda>F. shape F ! 0) (F0 # F1 # fs))"
    using F0(2) by (simp add: tensor_of_def bind_e_def M_def q_def split: sum.splits)
  have "is_matrix M d0 (prod_list (map (\<lambda>F. shape F ! 0) (F1 # fs)))"
    by (simp add: M_def q_def)
  then obtain t where "fold_tensor M 0 (map (\<lambda>F. shape F ! 0) (F0 # F1 # fs)) = Inr t"
    using fold_tensor_front [of M d0 "map (\<lambda>F. shape F ! 0) (F1 # fs)"] F0(2) by auto
  then show "\<exists>t. tensor_of kt = Inr t"
    using ct by (simp add: tensor_of_def bind_e_def)
qed

lemma prod_list_inverse_cancel:
  fixes c :: "'b \<Rightarrow> real"
  assumes "\<forall>F\<in>set fs. c F \<noteq> 0"
  shows "(\<Prod>F\<leftarrow>fs. c F) * (\<Prod>F\<leftarrow>fs. inverse (c F)) = 1"
  using assms
proof (induction fs)
  case Nil
  then show ?case by simp
next
  case (Cons a fs)
  have "c a * (\<Prod>F\<leftarrow>fs. c F) * (inverse (c a) * (\<Prod>F\<leftarrow>fs. inverse (c F)))
        = (c a * inverse (c a)) * ((\<Prod>F\<leftarrow>fs. c F) * (\<Prod>F\<leftarrow>fs. inverse (c F)))"
    by (simp add: mult_ac)
  then show ?case using Cons by simp
qed

lemma unit_columns_inverse:
  assumes "factor_ok n F"
  shows "unit_columns F = mk_mat (shape F ! 0) n (\<lambda>i r. mat_at F i r * inverse (colnorm F r))"
  using assms by (elim factor_okD) (simp add: unit_columns_def divide_inverse)

lemma np_ones_vec: "np_ones [n] = mk_vec n (\<lambda>r. 1)"
  by (simp add: np_ones_def mk_vec_def map_replicate_const)

lemma normalize_components_aux:
  assumes fms: "factor_matrices kt = F0 # F1 # fs"
    and ok: "\<forall>F\<in>set (factor_matrices kt). factor_ok (rank kt) F"
    and nz: "\<forall>F\<in>set (factor_matrices kt). \<forall>r<rank kt. colnorm F r \<noteq> 0"
  shows "\<exists>kt' t. normalize_components kt True = Inr kt'
      \<and> factor_matrices kt' = map unit_columns (factor_matrices kt)
      \<and> (\<forall>F\<in>set (factor_matrices kt'). \<forall>r<rank kt. colnorm F r = 1)
      \<and> weights kt' = mk_vec (rank kt) (\<lambda>r. \<Prod>F\<leftarrow>factor_matrices kt. colnorm F r)
      \<and> tensor_of kt' = Inr t
      \<and> tensor_of (kt\<lparr>weights := np_ones [rank kt]\<rparr>) = Inr t"
proof -
  define n where "n = rank kt"
  define wn where "wn = (\<lambda>r. \<Prod>F\<leftarrow>factor_matrices kt. colnorm F r)"
  define kt' where "kt' = kt\<lparr>factor_matrices := map unit_columns (factor_matrices kt),
                              weights := mk_vec n wn\<rparr>"
  define kt1 where "kt1 = kt\<lparr>weights := np_ones [n]\<rparr>"
  note ok = ok [folded n_def] and nz = nz [folded n_def]
  have nc: "normalize_components kt True = Inr kt'"
    using normalize_loop_matrices [OF ok nz, of "\<lambda>r. 1"]
    by (simp add: normalize_components_def np_ones_vec bind_e_def kt'_def wn_def flip: n_def)
  have unit: "\<forall>F\<in>set (factor_matrices kt'). \<forall>r<n. colnorm F r = 1"
    using ok nz by (auto simp: kt'_def intro: colnorm_unit_columns)
  have okF0: "factor_ok n F0" and okF1: "factor_ok n F1" and okfs: "\<forall>F\<in>set fs. factor_ok n F"
    using ok fms by simp_all
  obtain d1 where F1: "is_matrix F1 d1 n" "shape F1 = [d1, n]"
    using okF1 factor_okD [of n F1] by auto
  obtain d0 where F0: "is_matrix F0 d0 n" "shape F0 = [d0, n]"
    using okF0 factor_okD [of n F0] by auto
  obtain K where K: "fold_e khatri_rao_binary F1 fs = Inr K"
    and Km: "is_matrix K (d1 * prod_list (map (\<lambda>F. shape F ! 0) fs)) n"
    using fold_krb_matrices [OF F1(1) okfs] by auto
  define q where "q = d1 * prod_list (map (\<lambda>F. shape F ! 0) fs)"
  define sc where "sc = (\<lambda>r. inverse (colnorm F1 r) * (\<Prod>F\<leftarrow>fs. inverse (colnorm F r)))"
  define K' where "K' = mk_mat q n (\<lambda>x r. mat_at K x r * sc r)"
  have u1: "unit_columns F1 = mk_mat d1 n (\<lambda>i r. mat_at F1 i r * inverse (colnorm F1 r))"
    using unit_columns_inverse [OF okF1] F1(2) by simp
  have ufs: "map unit_columns fs
      = map (\<lambda>F. mk_mat (shape F ! 0) n (\<lambda>i r. mat_at F i r * inverse (colnorm F r))) fs"
    using okfs by (simp add: unit_columns_inverse)
  have K': "fold_e khatri_rao_binary (unit_columns F1) (map unit_columns fs) = Inr K'"
    unfolding u1 ufs K'_def q_def sc_def
    by (rule fold_krb_scaled [OF F1(1) okfs K])
  have shu: "shape (unit_columns F) ! 0 = shape F ! 0" if "factor_ok n F" for F
    using shape_unit_columns [OF that] by simp
  have shfs: "map ((\<lambda>F. shape F ! 0) \<circ> unit_columns) fs = map (\<lambda>F. shape F ! 0) fs"
    using okfs by (simp add: shu)
  have fms': "factor_matrices kt' = unit_columns F0 # unit_columns F1 # map unit_columns fs"
    by (simp add: kt'_def fms)
  have ok': "\<forall>F\<in>set (factor_matrices kt'). factor_ok n F"
    using ok by (auto simp: kt'_def intro: factor_ok_unit_columns)
  have w': "weights kt' = mk_vec n wn" by (simp add: kt'_def)
  have t': "tensor_of kt'
      = fold_tensor (mk_mat d0 q (\<lambda>x y. \<Sum>r\<leftarrow>[0..<n]. wn r * mat_at (unit_columns F0) x r * mat_at K' y r))
          0 (map (\<lambda>F. shape F ! 0) (F0 # F1 # fs))"
    using construct_tensor_matrices(1) [OF fms' ok' w' K'] F0(2) F1(2)
    by (simp add: shu [OF okF0] shu [OF okF1] shfs q_def)
  have fms1: "factor_matrices kt1 = F0 # F1 # fs" by (simp add: kt1_def fms)
  have ok1: "\<forall>F\<in>set (factor_matrices kt1). factor_ok n F" using ok by (simp add: kt1_def)
  have w1: "weights kt1 = mk_vec n (\<lambda>r. 1)" by (simp add: kt1_def np_ones_vec)
  have t1: "tensor_of kt1
      = fold_tensor (mk_mat d0 q (\<lambda>x y. \<Sum>r\<leftarrow>[0..<n]. 1 * mat_at F0 x r * mat_at K y r))
          0 (map (\<lambda>F. shape F ! 0) (F0 # F1 # fs))"
    using construct_tensor_matrices(1) [OF fms1 ok1 w1 K] F0(2) F1(2) by (simp add: q_def)
  obtain t where t: "tensor_of kt1 = Inr t"
    using construct_tensor_matrices(2) [OF fms1 ok1 w1 K] by blast
  have "mk_mat d0 q (\<lambda>x y. \<Sum>r\<leftarrow>[0..<n]. wn r * mat_at (unit_columns F0) x r * mat_at K' y r)
      = mk_mat d0 q (\<lambda>x y. \<Sum>r\<leftarrow>[0..<n]. 1 * mat_at F0 x r * mat_at K y r)"
  proof (rule mk_mat_cong, rule sum_list_cong_upt)
    fix x y r assume x: "x < d0" and y: "y < q" and r: "r < n"
    have c0: "colnorm F0 r \<noteq> 0" and c1: "colnorm F1 r \<noteq> 0"
      and cfs: "\<forall>F\<in>set fs. colnorm F r \<noteq> 0"
      using nz fms r by simp_all
    have "wn r * (inverse (colnorm F0 r) * sc r)
          = (colnorm F0 r * inverse (colnorm F0 r)) * (colnorm F1 r * inverse (colnorm F1 r))
            * ((\<Prod>F\<leftarrow>fs. colnorm F r) * (\<Prod>F\<leftarrow>fs. inverse (colnorm F r)))"
      by (simp add: wn_def sc_def fms)
    also have "\<dots> = 1"
      using c0 c1 prod_list_inverse_cancel [OF cfs] by simp
    finally have one: "wn r * (inverse (colnorm F0 r) * sc r) = 1" .
    have "wn r * mat_at (unit_columns F0) x r * mat_at K' y r
          = (wn r * (inverse (colnorm F0 r) * sc r)) * (mat_at F0 x r * mat_at K y r)"
      using x y r F0(2) by (simp add: unit_columns_def K'_def divide_inverse)
    then show "wn r * mat_at (unit_columns F0) x r * mat_at K' y r
          = 1 * mat_at F0 x r * mat_at K y r"
      using one by simp
  qed
  then have "tensor_of kt' = Inr t" using t' t1 t by simp
  then show ?thesis
    using nc unit t by (intro exI [of _ kt'] exI [of _ t]) (simp add: kt'_def kt1_def wn_def n_def)
qed

text \<open>
  C5 fails for weights that are not all ones: \<open>normalize_components\<close> starts from
  \<open>np.ones(self.rank)\<close> and overwrites \<open>self.weights\<close>, so the prior weights are lost. With two
  \<open>1 \<times> 1\<close> factor matrices \<open>[[1]]\<close> (unit columns already) and weights \<open>[2]\<close>, the tensor is
  \<open>[[2]]\<close> before the call and \<open>[[1]]\<close> after it.
\<close>

theorem normalize_components_discards_weights_counterexample:
  "colnorm \<lparr>shape = [1, 1], data = [1]\<rparr> 0 = 1
   \<and> tensor_of \<lparr>factor_matrices = [\<lparr>shape = [1, 1], data = [1]\<rparr>, \<lparr>shape = [1, 1], data = [1]\<rparr>],
                 weights = \<lparr>shape = [1], data = [2 :: real]\<rparr>, rank = 1\<rparr>
       = Inr \<lparr>shape = [1, 1], data = [2]\<rparr>
   \<and> normalize_components
         \<lparr>factor_matrices = [\<lparr>shape = [1, 1], data = [1]\<rparr>, \<lparr>shape = [1, 1], data = [1]\<rparr>],
           weights = \<lparr>shape = [1], data = [2]\<rparr>, rank = 1\<rparr> True
       = Inr \<lparr>factor_matrices = [\<lparr>shape = [1, 1], data = [1]\<rparr>, \<lparr>shape = [1, 1], data = [1]\<rparr>],
               weights = \<lparr>shape = [1], data = [1]\<rparr>, rank = 1\<rparr>
   \<and> tensor_of \<lparr>factor_matrices = [\<lparr>shape = [1, 1], data = [1]\<rparr>, \<lparr>shape = [1, 1], data = [1]\<rparr>],
                 weights = \<lparr>shape = [1], data = [1 :: real]\<rparr>, rank = 1\<rparr>
       = Inr \<lparr>shape = [1, 1], data = [1]\<rparr>"
proof -
  have a: "colnorm \<lparr>shape = [1, 1], data = [1]\<rparr> 0 = 1"
    by (simp add: colnorm_def mat_at_def)
  have b: "tensor_of \<lparr>factor_matrices = [\<lparr>shape = [1, 1], data = [1]\<rparr>, \<lparr>shape = [1, 1], data = [1]\<rparr>],
                 weights = \<lparr>shape = [1], data = [2 :: real]\<rparr>, rank = 1\<rparr>
       = Inr \<lparr>shape = [1, 1], data = [2]\<rparr>"
    by code_simp
  have d: "tensor_of \<lparr>factor_matrices = [\<lparr>shape = [1, 1], data = [1]\<rparr>, \<lparr>shape = [1, 1], data = [1]\<rparr>],
                 weights = \<lparr>shape = [1], data = [1 :: real]\<rparr>, rank = 1\<rparr>
       = Inr \<lparr>shape = [1, 1], data = [1]\<rparr>"
    by code_simp
  have n: "linalg_norm_axis0 \<lparr>shape = [1, 1], data = [1]\<rparr> = Inr \<lparr>shape = [1], data = [1]\<rparr>"
    by (simp add: linalg_norm_axis0_def)
  have dv: "np_binop (/) \<lparr>shape = [1, 1], data = [1::real]\<rparr> (newaxis_front \<lparr>shape = [1], data = [1]\<rparr>)
            = Inr \<lparr>shape = [1, 1], data = [1]\<rparr>"
    by code_simp
  have im: "np_imul \<lparr>shape = [1], data = [1::real]\<rparr> \<lparr>shape = [1], data = [1]\<rparr>
            = Inr \<lparr>shape = [1], data = [1]\<rparr>"
    by code_simp
  have c: "normalize_components
         \<lparr>factor_matrices = [\<lparr>shape = [1, 1], data = [1]\<rparr>, \<lparr>shape = [1, 1], data = [1]\<rparr>],
           weights = \<lparr>shape = [1], data = [2]\<rparr>, rank = 1\<rparr> True
       = Inr \<lparr>factor_matrices = [\<lparr>shape = [1, 1], data = [1]\<rparr>, \<lparr>shape = [1, 1], data = [1]\<rparr>],
               weights = \<lparr>shape = [1], data = [1]\<rparr>, rank = 1\<rparr>"
    using n dv im by (simp add: normalize_components_def np_ones_def bind_e_def)
  show ?thesis using a b c d by simp
qed

text \<open>
  C5, amended. For every Kruskal tensor with at least two factor matrices, each a matrix
  with \<open>rank\<close> columns, all of non-zero norm, and for any prior weights:
  \<open>normalize_components()\<close> returns; every factor matrix has been replaced by the matrix of
  its columns divided by their norms, so that every column has Euclidean norm \<open>1\<close>; the
  weights are set to the products of the removed column norms; and \<open>construct_tensor()\<close>
  after the call returns the tensor that the prior factor matrices give with all-ones
  weights, which is the tensor before the call when the prior weights were all ones.
\<close>

theorem normalize_components_unit_columns:
  assumes "factor_matrices kt = F0 # F1 # fs"
    and "\<forall>F\<in>set (factor_matrices kt). factor_ok (rank kt) F"
    and "\<forall>F\<in>set (factor_matrices kt). \<forall>r<rank kt. colnorm F r \<noteq> 0"
  shows "\<exists>kt' t. normalize_components kt True = Inr kt'
      \<and> factor_matrices kt' = map unit_columns (factor_matrices kt)
      \<and> (\<forall>F\<in>set (factor_matrices kt'). \<forall>r<rank kt. colnorm F r = 1)
      \<and> weights kt' = mk_vec (rank kt) (\<lambda>r. \<Prod>F\<leftarrow>factor_matrices kt. colnorm F r)
      \<and> tensor_of kt' = Inr t
      \<and> tensor_of (kt\<lparr>weights := np_ones [rank kt]\<rparr>) = Inr t"
  using assms by (rule normalize_components_aux)

theorem normalize_components_unit_columns_witness:
  "factor_ok 1 \<lparr>shape = [1, 1], data = [2 :: real]\<rparr>
   \<and> factor_ok 1 \<lparr>shape = [1, 1], data = [3 :: real]\<rparr>
   \<and> colnorm \<lparr>shape = [1, 1], data = [2]\<rparr> 0 \<noteq> 0
   \<and> colnorm \<lparr>shape = [1, 1], data = [3]\<rparr> 0 \<noteq> 0
   \<and> (\<exists>kt' t.
         normalize_components
           \<lparr>factor_matrices = [\<lparr>shape = [1, 1], data = [2]\<rparr>, \<lparr>shape = [1, 1], data = [3]\<rparr>],
             weights = \<lparr>shape = [1], data = [7]\<rparr>, rank = 1\<rparr> True = Inr kt'
       \<and> colnorm (factor_matrices kt' ! 0) 0 = 1
       \<and> colnorm (factor_matrices kt' ! 1) 0 = 1
       \<and> weights kt' = mk_vec 1 (\<lambda>r. \<Prod>F\<leftarrow>[\<lparr>shape = [1, 1], data = [2]\<rparr>,
                                              \<lparr>shape = [1, 1], data = [3]\<rparr>]. colnorm F r)
       \<and> tensor_of kt' = Inr t
       \<and> tensor_of \<lparr>factor_matrices = [\<lparr>shape = [1, 1], data = [2]\<rparr>, \<lparr>shape = [1, 1], data = [3]\<rparr>],
                     weights = np_ones [1], rank = 1\<rparr> = Inr t)"
proof -
  let ?F0 = "\<lparr>shape = [1, 1], data = [2 :: real]\<rparr>"
  let ?F1 = "\<lparr>shape = [1, 1], data = [3 :: real]\<rparr>"
  let ?kt = "\<lparr>factor_matrices = [?F0, ?F1], weights = \<lparr>shape = [1], data = [7]\<rparr>, rank = 1\<rparr>"
  have h1: "factor_matrices ?kt = ?F0 # ?F1 # []" by simp
  have h2: "\<forall>F\<in>set (factor_matrices ?kt). factor_ok (rank ?kt) F"
    by (simp add: factor_ok_def is_matrix_def)
  have h3: "\<forall>F\<in>set (factor_matrices ?kt). \<forall>r<rank ?kt. colnorm F r \<noteq> 0"
    by (simp add: colnorm_def mat_at_def)
  obtain kt' t where k: "normalize_components ?kt True = Inr kt'"
    "factor_matrices kt' = map unit_columns (factor_matrices ?kt)"
    "\<forall>F\<in>set (factor_matrices kt'). \<forall>r<rank ?kt. colnorm F r = 1"
    "weights kt' = mk_vec (rank ?kt) (\<lambda>r. \<Prod>F\<leftarrow>factor_matrices ?kt. colnorm F r)"
    "tensor_of kt' = Inr t"
    "tensor_of (?kt\<lparr>weights := np_ones [rank ?kt]\<rparr>) = Inr t"
    using normalize_components_unit_columns [OF h1 h2 h3] by blast
  have "colnorm (factor_matrices kt' ! 0) 0 = 1" and "colnorm (factor_matrices kt' ! 1) 0 = 1"
    using k(2,3) by simp_all
  then show ?thesis using h2 h3 k(1,4,5,6) by auto
qed

section \<open>The factor matrix after an ADMM update\<close>



lemma prod_list_pad_shape [simp]: "prod_list (pad_shape n s) = prod_list s"
  by (simp add: pad_shape_def)




lemma prod_list_strip_ones [simp]: "prod_list (strip_ones n s) = prod_list s"
  by (induction s) auto



lemma fmax_zero_cases: "fmax x 0 = NaN \<or> nonneg_entry (fmax x 0)"
  by (cases x) (simp_all add: fmax_def zero_float64_def nonneg_entry_def)

lemma fmax_zero_nan: "fmax x 0 = NaN \<longleftrightarrow> x = NaN"
  by (cases x) (simp_all add: fmax_def zero_float64_def)




lemma nonneg_or_nan_maximum [simp]: "nonneg_or_nan (np_maximum_scalar A 0)"
  using fmax_zero_cases by (simp add: nonneg_or_nan_def np_maximum_scalar_def list_all_iff)

lemma nan_free_maximum [simp]: "nan_free (np_maximum_scalar A 0) = nan_free A"
proof -
  have "NaN \<in> (\<lambda>x. fmax x 0) ` set (data A) \<longleftrightarrow> NaN \<in> set (data A)"
    using fmax_zero_nan by (metis (mono_tags, lifting) image_iff)
  then show ?thesis by (simp add: nan_free_def np_maximum_scalar_def)
qed

lemma wf_maximum [simp]: "wf_array (np_maximum_scalar A c) = wf_array A"
  by (simp add: wf_array_def np_maximum_scalar_def)

lemma zeros_ok [simp]: "wf_array (np_zeros s)" "nan_free (np_zeros s :: float64 ndarray)"
  by (simp_all add: wf_array_def nan_free_def np_zeros_def zero_float64_def)













section \<open>Initialisation by singular vectors\<close>

lemma py_min_Min: "xs \<noteq> [] \<Longrightarrow> py_min xs = Inr (Min (set xs))"
proof (cases xs)
  case Nil
  assume "xs \<noteq> []"
  then show ?thesis using Nil by simp
next
  case (Cons a list)
  have "fold min list a = Min (set (a # list))" by (rule Min.set_eq_fold [symmetric])
  then show ?thesis by (simp add: py_min_def Cons)
qed

lemma unfold_error:
  assumes "unfold T n = Inl e"
  shows "e = AxisError \<or> e = IndexError \<or> e = ValueError ''cannot reshape array''"
  using assms
  by (auto simp: unfold_def moveaxis_def norm_axis_def bind_e_def py_get_def reshape_rows_def
      Let_def split: sum.splits option.splits if_splits)

lemma unfold_result_matrix:
  assumes "unfold T n = Inr U"
  shows "\<exists>m k. is_matrix U m k"
proof -
  obtain B d where "reshape_rows B d = Inr U"
    using assms by (auto simp: unfold_def bind_e_def split: sum.splits)
  then have "0 < d" "length (data B) mod d = 0"
    "U = \<lparr>shape = [d, length (data B) div d], data = data B\<rparr>"
    by (auto simp: reshape_rows_def split: if_splits)
  then have "is_matrix U d (length (data B) div d)"
    by (simp add: is_matrix_def mod_eq_0_iff_dvd)
  then show ?thesis by blast
qed

lemma np_take_columns_matrix:
  "is_matrix u m n \<Longrightarrow> np_take_columns u r = Inr (mk_mat m (py_slice_stop r n) (mat_at u))"
  by (simp add: np_take_columns_def is_matrix_def)

lemma KruskalTensor_init_error:
  assumes "KruskalTensor_init fms None = Inl e"
  shows "e = IndexError \<or> e = NameError ''i''"
proof -
  have cc: "check_columns r fs = Inl e' \<Longrightarrow> e' = IndexError \<or> e' = NameError ''i''" for r fs e'
    by (induction fs) (auto simp: bind_e_def py_get_def split: sum.splits option.splits if_splits)
  show ?thesis
    using assms cc
    by (auto simp: KruskalTensor_init_def bind_e_def py_get_def
        split: sum.splits option.splits if_splits)
qed

lemma check_columns_ok:
  "\<forall>f\<in>set fms. \<exists>m. shape f = [m, r] \<Longrightarrow> check_columns r fms = Inr ()"
proof (induction fms)
  case Nil
  then show ?case by simp
next
  case (Cons f fms)
  then obtain m where "shape f = [m, r]" by auto
  then have "py_get (shape f) 1 = Inr r" by (simp add: py_get_def py_index_def)
  then show ?case using Cons by (simp add: bind_e_def)
qed

lemma svd_loop_error:
  assumes c: "svd_contract svd_u"
    and e: "fold_e (svd_loop_body svd_u T r) acc js = Inl e"
  shows "e = AxisError \<or> e = IndexError \<or> e = ValueError ''cannot reshape array''"
  using e
proof (induction js arbitrary: acc)
  case Nil
  then show ?case by simp
next
  case (Cons i js)
  show ?case
  proof (cases "unfold T (int i)")
    case (Inl e')
    then have "e = e'" using Cons.prems by (simp add: svd_loop_body_def bind_e_def)
    then show ?thesis using unfold_error [OF Inl] by simp
  next
    case (Inr U)
    obtain m k where "is_matrix U m k" using unfold_result_matrix [OF Inr] by blast
    then obtain u where u: "svd_u U = Inr u" "is_matrix u m m"
      using c by (auto simp: svd_contract_def)
    have "svd_loop_body svd_u T r acc i = Inr (acc @ [mk_mat m (py_slice_stop r m) (mat_at u)])"
      by (simp add: svd_loop_body_def Inr u(1) np_take_columns_matrix [OF u(2)] bind_e_def)
    then show ?thesis using Cons.prems Cons.IH by (simp add: bind_e_def)
  qed
qed

lemma svd_loop_ok:
  assumes "\<forall>i\<in>set js. svd_factor svd_u T r i = Inr (F i)"
  shows "fold_e (svd_loop_body svd_u T r) acc js = Inr (acc @ map F js)"
  using assms
proof (induction js arbitrary: acc)
  case Nil
  then show ?case by simp
next
  case (Cons i js)
  have "svd_factor svd_u T r i = Inr (F i)" using Cons.prems by simp
  then have "svd_loop_body svd_u T r acc i = Inr (acc @ [F i])"
    by (auto simp: svd_loop_body_def svd_factor_def bind_e_def split: sum.splits)
  then show ?case using Cons by (simp add: bind_e_def)
qed

lemma init_svd_unfold:
  "init_svd svd_u s =
     (case py_min (shape (self_X s)) of
        Inl e \<Rightarrow> (Inl e, s)
      | Inr m \<Rightarrow>
          if self_rank s > int m
          then (Inl (ValueError ''SVD initialisation does not work when rank is larger than the smallest dimension of X''), s)
          else
            (case fold_e (svd_loop_body svd_u (self_X s) (self_rank s)) []
                    [0..<length (shape (self_X s))] of
               Inl e \<Rightarrow> (Inl e, s)
             | Inr fms \<Rightarrow>
                 (case KruskalTensor_init fms None of
                    Inl e \<Rightarrow> (Inl e, s)
                  | Inr kt \<Rightarrow> (Inr (), s\<lparr>decomposition := kt\<rparr>))))"
  unfolding init_svd_def svd_loop_body_def Let_def by (rule refl)

lemma init_svd_invalid_rank_iff:
  assumes c: "svd_contract svd_u" and ne: "shape (self_X s) \<noteq> []"
  shows "fst (init_svd svd_u s)
           = Inl (ValueError ''SVD initialisation does not work when rank is larger than the smallest dimension of X'')
         \<longleftrightarrow> self_rank s > int (Min (set (shape (self_X s))))"
proof (cases "self_rank s > int (Min (set (shape (self_X s))))")
  case True
  then show ?thesis by (simp add: init_svd_unfold py_min_Min [OF ne])
next
  case False
  have "fst (init_svd svd_u s) \<noteq> Inl (ValueError ''SVD initialisation does not work when rank is larger than the smallest dimension of X'')"
  proof (cases "fold_e (svd_loop_body svd_u (self_X s) (self_rank s)) [] [0..<length (shape (self_X s))]")
    case (Inl e)
    then show ?thesis
      using False svd_loop_error [OF c Inl] by (auto simp: init_svd_unfold py_min_Min [OF ne])
  next
    case (Inr fms)
    show ?thesis
    proof (cases "KruskalTensor_init fms None")
      case (Inl e)
      then show ?thesis
        using False Inr KruskalTensor_init_error [OF Inl]
        by (auto simp: init_svd_unfold py_min_Min [OF ne])
    next
      case (Inr kt)
      then show ?thesis
        using False \<open>fold_e _ _ _ = Inr fms\<close> by (simp add: init_svd_unfold py_min_Min [OF ne])
    qed
  qed
  then show ?thesis using False by simp
qed

lemma init_svd_factors:
  assumes c: "svd_contract svd_u" and wf: "wf_array (self_X s)" and ne: "shape (self_X s) \<noteq> []"
    and pos: "0 < self_rank s" and le: "self_rank s \<le> int (Min (set (shape (self_X s))))"
  shows "\<exists>kt. init_svd svd_u s = (Inr (), s\<lparr>decomposition := kt\<rparr>)
           \<and> length (factor_matrices kt) = ndim (self_X s)
           \<and> (\<forall>i<ndim (self_X s). \<exists>U u. unfold (self_X s) (int i) = Inr U \<and> svd_u U = Inr u
                 \<and> factor_matrices kt ! i
                     = mk_mat (shape (self_X s) ! i) (nat (self_rank s)) (mat_at u))"
proof -
  define T where "T = self_X s"
  define n where "n = length (shape T)"
  define r where "r = nat (self_rank s)"
  define F where "F = (\<lambda>i. projr (svd_factor svd_u T (self_rank s) i))"
  have dims: "r \<le> shape T ! i" if "i < n" for i
  proof -
    have "Min (set (shape T)) \<le> shape T ! i" using that by (simp add: n_def)
    then show ?thesis using le by (simp add: r_def T_def)
  qed
  have r0: "0 < r" using pos by (simp add: r_def)
  have step: "\<exists>U u. unfold T (int i) = Inr U \<and> svd_u U = Inr u
                \<and> svd_factor svd_u T (self_rank s) i = Inr (F i)
                \<and> F i = mk_mat (shape T ! i) r (mat_at u)"
    if i: "i < n" for i
  proof -
    have pi: "py_index (ndim T) (int i) = Some i" using i by (simp add: py_index_def ndim_def n_def)
    have nz: "shape T ! i \<noteq> 0" using dims [OF i] r0 by simp
    obtain U where U: "unfold T (int i) = Inr U"
      "is_matrix U (shape T ! i) (prod_list (shape T) div (shape T ! i))"
      using unfold_is_matrix [OF wf [folded T_def] pi nz] by blast
    obtain u where u: "svd_u U = Inr u" "is_matrix u (shape T ! i) (shape T ! i)"
      using c U(2) unfolding svd_contract_def by blast
    have "py_slice_stop (self_rank s) (shape T ! i) = r"
      using dims [OF i] pos by (simp add: py_slice_stop_def r_def)
    then have tk: "np_take_columns u (self_rank s) = Inr (mk_mat (shape T ! i) r (mat_at u))"
      using np_take_columns_matrix [OF u(2), of "self_rank s"] by simp
    have sf: "svd_factor svd_u T (self_rank s) i = Inr (mk_mat (shape T ! i) r (mat_at u))"
      by (simp add: svd_factor_def U(1) u(1) tk bind_e_def)
    then have "F i = mk_mat (shape T ! i) r (mat_at u)" by (simp add: F_def)
    then show ?thesis using U(1) u(1) sf by simp
  qed
  have loop: "fold_e (svd_loop_body svd_u T (self_rank s)) [] [0..<n] = Inr (map F [0..<n])"
  proof -
    have "\<forall>i\<in>set [0..<n]. svd_factor svd_u T (self_rank s) i = Inr (F i)"
    proof (intro ballI)
      fix i assume "i \<in> set [0..<n]"
      then have "i < n" by simp
      from step [OF this] show "svd_factor svd_u T (self_rank s) i = Inr (F i)" by blast
    qed
    then show ?thesis using svd_loop_ok [of "[0..<n]" svd_u T "self_rank s" F "[]"] by simp
  qed
  have shF: "shape (F i) = [shape T ! i, r]" if i: "i < n" for i
  proof -
    obtain u where "F i = mk_mat (shape T ! i) r (mat_at u)" using step [OF i] by blast
    then show ?thesis by simp
  qed
  have n0: "0 < n" using ne by (simp add: n_def T_def)
  have cc: "check_columns r (map F [0..<n]) = Inr ()"
  proof (rule check_columns_ok, intro ballI)
    fix f assume "f \<in> set (map F [0..<n])"
    then obtain i where "i < n" "f = F i" by auto
    then show "\<exists>m. shape f = [m, r]" using shF by simp
  qed
  have g0: "py_get (map F [0..<n]) 0 = Inr (F 0)"
    using n0 by (simp add: py_get_def py_index_def)
  have g1: "py_get (shape (F 0)) 1 = Inr r"
    using shF [OF n0] by (simp add: py_get_def py_index_def)
  define kt where "kt = \<lparr>factor_matrices = map F [0..<n], weights = np_ones [r], rank = r\<rparr>"
  have kti: "KruskalTensor_init (map F [0..<n]) None = Inr kt"
    by (simp add: KruskalTensor_init_def g0 g1 cc bind_e_def kt_def)
  have m: "py_min (shape T) = Inr (Min (set (shape T)))"
    using ne by (simp add: py_min_Min T_def)
  have nle: "\<not> self_rank s > int (Min (set (shape T)))" using le by (simp add: T_def)
  have res: "init_svd svd_u s = (Inr (), s\<lparr>decomposition := kt\<rparr>)"
    unfolding init_svd_unfold T_def [symmetric] n_def [symmetric]
    by (simp only: m sum.case nle if_False loop kti)
  have len: "length (factor_matrices kt) = ndim (self_X s)"
    by (simp add: kt_def ndim_def n_def T_def)
  have fac: "\<exists>U u. unfold (self_X s) (int i) = Inr U \<and> svd_u U = Inr u
           \<and> factor_matrices kt ! i = mk_mat (shape (self_X s) ! i) (nat (self_rank s)) (mat_at u)"
    if "i < ndim (self_X s)" for i
  proof -
    have i: "i < n" using that by (simp add: ndim_def n_def T_def)
    obtain U u where "unfold T (int i) = Inr U" "svd_u U = Inr u"
      "F i = mk_mat (shape T ! i) r (mat_at u)" using step [OF i] by blast
    moreover have "factor_matrices kt ! i = F i" using i by (simp add: kt_def)
    ultimately show ?thesis unfolding T_def r_def by metis
  qed
  show ?thesis
    using res len fac by blast
qed

text \<open>
  C7. Let the initialisation method be \<open>svd\<close> (in any case of the letters), no initial
  decomposition be passed, \<open>X\<close> be a well-formed array with at least one axis, and
  \<open>np.linalg.svd\<close> return a square left factor for every matrix. Then \<open>init_components\<close>
  raises the \<open>ValueError\<close> of \<open>init_svd\<close> exactly when the rank is greater than the smallest
  axis length of \<open>X\<close>. When the rank is positive and at most the smallest axis length,
  \<open>init_components\<close> returns, the decomposition has one factor matrix for each axis, and the
  factor matrix of the axis \<open>i\<close> consists of the first \<open>rank\<close> columns of the left factor of
  the singular value decomposition of \<open>unfold X i\<close>.
\<close>

theorem init_components_svd:
  assumes "str_lower (self_init s) = ''svd''" and "svd_contract svd_u"
    and "wf_array (self_X s)" and "shape (self_X s) \<noteq> []"
  shows "(fst (init_components init_random svd_u load_ckpt None s)
            = Inl (ValueError ''SVD initialisation does not work when rank is larger than the smallest dimension of X'')
          \<longleftrightarrow> self_rank s > int (Min (set (shape (self_X s)))))
       \<and> (0 < self_rank s \<and> self_rank s \<le> int (Min (set (shape (self_X s)))) \<longrightarrow>
            (\<exists>kt. init_components init_random svd_u load_ckpt None s = (Inr (), s\<lparr>decomposition := kt\<rparr>)
               \<and> length (factor_matrices kt) = ndim (self_X s)
               \<and> (\<forall>i<ndim (self_X s). \<exists>U u. unfold (self_X s) (int i) = Inr U \<and> svd_u U = Inr u
                     \<and> factor_matrices kt ! i
                         = mk_mat (shape (self_X s) ! i) (nat (self_rank s)) (mat_at u))))"
proof -
  have "init_components init_random svd_u load_ckpt None s = init_svd svd_u s"
    using assms(1) by (simp add: init_components_def)
  then show ?thesis
    using init_svd_invalid_rank_iff [OF assms(2,4)] init_svd_factors [OF assms(2,3,4)]
    by simp
qed

theorem init_components_svd_witness:
  "str_lower ''SVD'' = ''svd''
   \<and> fst (init_components (\<lambda>s. (Inr (), s)) (\<lambda>M. Inr (np_identity (hd (shape M)))) (\<lambda>i s. (Inr (), s)) None
       \<lparr>self_X = \<lparr>shape = [1, 2], data = [3, 4]\<rparr>, X_norm = 5,
         decomposition = \<lparr>factor_matrices = [], weights = np_ones [0] :: real ndarray, rank = 0\<rparr>,
         current_iteration = 0, max_its = 10, self_rank = 2, convergence_tol = 0,
         self_init = ''SVD''\<rparr>)
     = Inl (ValueError ''SVD initialisation does not work when rank is larger than the smallest dimension of X'')
   \<and> (\<exists>kt. init_components (\<lambda>s. (Inr (), s)) (\<lambda>M. Inr (np_identity (hd (shape M)))) (\<lambda>i s. (Inr (), s)) None
       \<lparr>self_X = \<lparr>shape = [1, 2], data = [3, 4]\<rparr>, X_norm = 5,
         decomposition = \<lparr>factor_matrices = [], weights = np_ones [0] :: real ndarray, rank = 0\<rparr>,
         current_iteration = 0, max_its = 10, self_rank = 1, convergence_tol = 0,
         self_init = ''SVD''\<rparr>
       = (Inr (), \<lparr>self_X = \<lparr>shape = [1, 2], data = [3, 4]\<rparr>, X_norm = 5,
         decomposition = \<lparr>factor_matrices = [], weights = np_ones [0] :: real ndarray, rank = 0\<rparr>,
         current_iteration = 0, max_its = 10, self_rank = 1, convergence_tol = 0,
         self_init = ''SVD''\<rparr>\<lparr>decomposition := kt\<rparr>)
       \<and> length (factor_matrices kt) = 2)"
proof -
  let ?sv = "\<lambda>M. Inr (np_identity (hd (shape M))) :: error + real ndarray"
  let ?ir = "(\<lambda>s. (Inr (), s)) :: real KruskalTensor BaseCP \<Rightarrow> (error + unit) \<times> real KruskalTensor BaseCP"
  let ?lc = "(\<lambda>i s. (Inr (), s)) :: real initial option \<Rightarrow> real KruskalTensor BaseCP \<Rightarrow> (error + unit) \<times> real KruskalTensor BaseCP"
  let ?s2 = "\<lparr>self_X = \<lparr>shape = [1, 2], data = [3, 4]\<rparr>, X_norm = 5,
         decomposition = \<lparr>factor_matrices = [], weights = np_ones [0] :: real ndarray, rank = 0\<rparr>,
         current_iteration = 0, max_its = 10, self_rank = 2, convergence_tol = 0,
         self_init = ''SVD''\<rparr>"
  let ?s1 = "\<lparr>self_X = \<lparr>shape = [1, 2], data = [3, 4]\<rparr>, X_norm = 5,
         decomposition = \<lparr>factor_matrices = [], weights = np_ones [0] :: real ndarray, rank = 0\<rparr>,
         current_iteration = 0, max_its = 10, self_rank = 1, convergence_tol = 0,
         self_init = ''SVD''\<rparr>"
  have l: "str_lower ''SVD'' = ''svd''" by code_simp
  have h2: "svd_contract ?sv"
    by (simp add: svd_contract_def is_matrix_def np_identity_def)
  have m2: "Min (set (shape (self_X ?s2))) = 1" by simp
  have m1: "Min (set (shape (self_X ?s1))) = 1" by simp
  have "str_lower (self_init ?s2) = ''svd''" "wf_array (self_X ?s2)" "shape (self_X ?s2) \<noteq> []"
    using l by (simp_all add: wf_array_def)
  note a = init_components_svd [where s = ?s2 and svd_u = ?sv and init_random = ?ir
      and load_ckpt = ?lc, OF this(1) h2 this(2,3)]
  have "str_lower (self_init ?s1) = ''svd''" "wf_array (self_X ?s1)" "shape (self_X ?s1) \<noteq> []"
    using l by (simp_all add: wf_array_def)
  note b = init_components_svd [where s = ?s1 and svd_u = ?sv and init_random = ?ir
      and load_ckpt = ?lc, OF this(1) h2 this(2,3)]
  have a': "fst (init_components ?ir ?sv ?lc None ?s2)
     = Inl (ValueError ''SVD initialisation does not work when rank is larger than the smallest dimension of X'')"
    using a [THEN conjunct1] unfolding m2 by simp
  have "0 < self_rank ?s1 \<and> self_rank ?s1 \<le> int (Min (set (shape (self_X ?s1))))"
    unfolding m1 by simp
  from b [THEN conjunct2, rule_format, OF this]
  obtain kt where "init_components ?ir ?sv ?lc None ?s1 = (Inr (), ?s1\<lparr>decomposition := kt\<rparr>)
       \<and> length (factor_matrices kt) = ndim (self_X ?s1)
       \<and> (\<forall>i<ndim (self_X ?s1). \<exists>U u. unfold (self_X ?s1) (int i) = Inr U \<and> ?sv U = Inr u
             \<and> factor_matrices kt ! i
                 = mk_mat (shape (self_X ?s1) ! i) (nat (self_rank ?s1)) (mat_at u))" ..
  then have "init_components ?ir ?sv ?lc None ?s1 = (Inr (), ?s1\<lparr>decomposition := kt\<rparr>)"
      "length (factor_matrices kt) = ndim (self_X ?s1)"
    by (rule conjunct1, rule conjunct2 [THEN conjunct1])
  then have "\<exists>kt. init_components ?ir ?sv ?lc None ?s1 = (Inr (), ?s1\<lparr>decomposition := kt\<rparr>)
       \<and> length (factor_matrices kt) = 2"
    by (intro exI [of _ kt]) (simp add: ndim_def)
  with l a' show ?thesis by (intro conjI)
qed

section \<open>Construction of a Kruskal tensor\<close>

text \<open>
  C6. A factor matrix whose column count differs from that of the first one makes
  \<open>KruskalTensor.__init__\<close> raise: on two factor matrices of shapes \<open>(1, 1)\<close> and \<open>(1, 2)\<close>
  the exception that leaves the constructor is \<open>NameError\<close>, not the \<open>ValueError\<close> the
  code builds the message for.
\<close>

theorem KruskalTensor_init_column_mismatch_raises_NameError:
  "KruskalTensor_init
     [\<lparr>shape = [1, 1], data = [1::real]\<rparr>, \<lparr>shape = [1, 2], data = [1, 1]\<rparr>] None
   = Inl (NameError ''i'')"
  by (simp add: KruskalTensor_init_def bind_e_def py_get_def py_index_def)

section \<open>Slices of an evolving tensor\<close>

text \<open>
  C4. \<open>construct_slice\<close> multiplies the loadings with \<open>C[k] * B_k\<close>, not with its transpose.
  With \<open>A = [[1, 0]]\<close>, \<open>C = [[1, 1]]\<close> and the square \<open>B_0 = [[0, 1], [0, 0]]\<close> it returns
  \<open>[[0, 1]]\<close> where \<open>A diag(C_0) B_0^T\<close> is \<open>[[0, 0]]\<close>; with a \<open>B_0\<close> of three rows and two
  columns the product \<open>(1, 2) @ (3, 2)\<close> raises a \<open>ValueError\<close>.
\<close>

theorem construct_slice_is_not_documented_slice:
  "construct_slice
     \<lparr>fm0 = \<lparr>shape = [1, 2], data = [1, 0 :: int]\<rparr>,
      fm1 = [\<lparr>shape = [2, 2], data = [0, 1, 0, 0]\<rparr>],
      fm2 = \<lparr>shape = [1, 2], data = [1, 1]\<rparr>\<rparr> 0
     = Inr \<lparr>shape = [1, 2], data = [0, 1]\<rparr>
   \<and> documented_slice
       \<lparr>shape = [1, 2], data = [1, 0 :: int]\<rparr>
       \<lparr>shape = [2, 2], data = [0, 1, 0, 0]\<rparr>
       \<lparr>shape = [1, 2], data = [1, 1]\<rparr> 0
     = \<lparr>shape = [1, 2], data = [0, 0]\<rparr>
   \<and> construct_slice
     \<lparr>fm0 = \<lparr>shape = [1, 2], data = [1, 0 :: int]\<rparr>,
      fm1 = [\<lparr>shape = [3, 2], data = [0, 1, 0, 0, 1, 1]\<rparr>],
      fm2 = \<lparr>shape = [1, 2], data = [1, 1]\<rparr>\<rparr> 0
     = Inl (ValueError ''matmul: mismatch in core dimension'')"
  by code_simp

section \<open>Loading a checkpoint\<close>



section \<open>Resuming and restarting a fit\<close>

text \<open>
  C9. \<open>continue_fit\<close> runs \<open>_fit\<close> on the state it was called on, with \<open>max_its\<close> overwritten
  when an argument is given and nothing else changed: the target, its norm, the
  decomposition, the iteration counter and the attributes of the subclass (the convergence
  trackers of \<open>CP_ALS\<close>) are those of the caller's state. \<open>fit\<close> runs \<open>_fit\<close> only after it has
  set the iteration counter to \<open>0\<close>, set the target, and run \<open>init_components\<close> on that state.
\<close>

theorem continue_fit_keeps_state_fit_reinitialises:
  "continue_fit fitp m s
     = fitp (s\<lparr>max_its := (case m of None \<Rightarrow> max_its s | Some v \<Rightarrow> v)\<rparr>)
   \<and> continue_fit fitc m c
     = fitc (c\<lparr>max_its := (case m of None \<Rightarrow> max_its c | Some v \<Rightarrow> v)\<rparr>)
   \<and> rel_function_change (c\<lparr>max_its := (case m of None \<Rightarrow> max_its c | Some v \<Rightarrow> v)\<rparr>)
     = rel_function_change (c :: 'd CP_ALS)
   \<and> prev_SSE (c\<lparr>max_its := (case m of None \<Rightarrow> max_its c | Some v \<Rightarrow> v)\<rparr>) = prev_SSE c
   \<and> fit ic fitp Xn m init s
     = (case ic init (s\<lparr>current_iteration := 0, self_X := Xn, X_norm := linalg_norm Xn\<rparr>) of
          (Inl e, s1) \<Rightarrow> (Inl e, s1)
        | (Inr u, s1) \<Rightarrow>
            fitp (s1\<lparr>max_its := (case m of None \<Rightarrow> max_its s1 | Some v \<Rightarrow> v)\<rparr>))"
  by (auto simp: continue_fit_def fit_def init_fit_def set_target_def
      split: option.splits prod.splits sum.splits)

end
